theory Spec2Isabelle
  imports Complex_Main "HOL-Library.Multiset"
begin

section \<open>Python values and exceptions\<close>

text \<open>
  An exception is its class together with the message it is raised with. The messages of
  the exceptions raised by \<^verbatim>\<open>operator.py\<close> itself are the ones of the source; the
  failures of the tensor engine and of the labelled-tensor container carry messages of
  their own, so that the two families can be told apart.
\<close>

datatype exc = TypeError | RuntimeError | ValueError | IndexError | KeyError

type_synonym error = "exc \<times> string"

definition err_input_type :: error where
  "err_input_type = (TypeError, ''Input must be a LabelTensor.'')"

definition err_output_type :: error where
  "err_output_type = (TypeError, ''Output must be a LabelTensor.'')"

definition err_derivative_labels :: error where
  "err_derivative_labels = (RuntimeError, ''Derivative labels missing from input tensor.'')"

definition err_component_labels :: error where
  "err_component_labels = (RuntimeError, ''Component label missing from output tensor.'')"

definition err_div_length :: error where
  "err_div_length =
     (ValueError, ''Divergence requires components and d to be of the same length.'')"

definition err_invalid_method :: error where
  "err_invalid_method =
     (ValueError, ''Invalid method. Available methods are ``std`` and ``divgrad``.'')"

definition err_velocity_labels :: error where
  "err_velocity_labels = (RuntimeError, ''Velocity labels missing from output tensor.'')"

definition err_velocity_dim :: error where
  "err_velocity_dim =
     (RuntimeError, ''Velocity dimensionality does not match input dimensionality.'')"

text \<open>The exceptions that \<^verbatim>\<open>operator.py\<close> raises itself: every \<^verbatim>\<open>raise\<close> of the module.\<close>

definition validation_errors :: "error list" where
  "validation_errors =
     [err_input_type, err_output_type, err_derivative_labels, err_component_labels,
      err_div_length, err_invalid_method, err_velocity_labels, err_velocity_dim]"

text \<open>Failures below the operators: Python built-ins, the tensor engine, the container.\<close>

definition err_not_in_list :: error where
  "err_not_in_list = (ValueError, ''list.index(x): x not in list'')"

definition err_index_range :: error where
  "err_index_range = (IndexError, ''index out of range'')"

definition err_cat_empty :: error where
  "err_cat_empty = (RuntimeError, ''torch.cat(): expected a non-empty list of Tensors'')"

definition err_reshape :: error where
  "err_reshape = (RuntimeError, ''reshape: shape is invalid for input size'')"

definition err_broadcast :: error where
  "err_broadcast = (RuntimeError, ''tensor sizes must match at non-singleton dimension'')"

definition err_labels_unique :: error where
  "err_labels_unique = (ValueError, ''labels must be unique'')"

definition err_labels_count :: error where
  "err_labels_count = (ValueError, ''number of labels does not match tensor shape'')"

definition err_extract :: error where
  "err_extract = (ValueError, ''cannot extract a label that is not in the tensor'')"

definition err_summation :: error where
  "err_summation = (ValueError, ''summation: tensors must be a non-empty same-shape list'')"

definition err_not_iterable :: error where
  "err_not_iterable = (TypeError, ''NoneType object is not iterable'')"

text \<open>Sequencing of computations that may raise: the first exception wins.\<close>

definition ebind :: "error + 'a \<Rightarrow> ('a \<Rightarrow> error + 'b) \<Rightarrow> error + 'b" where
  "ebind m f = (case m of Inl e \<Rightarrow> Inl e | Inr v \<Rightarrow> f v)"

text \<open>A list comprehension whose body may raise, evaluated left to right.\<close>

fun emap :: "('a \<Rightarrow> error + 'b) \<Rightarrow> 'a list \<Rightarrow> error + 'b list" where
  "emap f [] = Inr []"
| "emap f (x # xs) = ebind (f x) (\<lambda>y. ebind (emap f xs) (\<lambda>ys. Inr (y # ys)))"

text \<open>\<^verbatim>\<open>list.index(x)\<close>: the first position of \<open>x\<close>, or \<^verbatim>\<open>ValueError\<close>.\<close>

fun list_index :: "'a list \<Rightarrow> 'a \<Rightarrow> error + nat" where
  "list_index [] x = Inl err_not_in_list"
| "list_index (y # ys) x =
     (if y = x then Inr 0 else ebind (list_index ys x) (\<lambda>n. Inr (Suc n)))"

text \<open>Reading position \<open>j\<close> of a sequence, with the range check of the engine.\<close>

definition item :: "'a list \<Rightarrow> nat \<Rightarrow> error + 'a" where
  "item xs j = (if j < length xs then Inr (xs ! j) else Inl err_index_range)"

section \<open>Labelled tensors\<close>

text \<open>
  A labelled tensor, seen along its last axis: the ordered labels and one column per
  label. A column is a whole differentiable quantity (all the rows of the batch and the
  computation graph behind them); its type \<open>'f\<close> is left open, with the exact arithmetic
  of a commutative semiring wherever columns are added or multiplied.
\<close>

record 'f label_tensor =
  labels :: "string list"
  cols :: "'f list"

text \<open>What a caller may pass as a tensor: a labelled tensor, or a plain one.\<close>

datatype 'f py_tensor = LT "'f label_tensor" | Plain "'f list"

text \<open>
  Modelled from the spec: the constructor \<^verbatim>\<open>LabelTensor(x, labels=...)\<close> of
  \<^verbatim>\<open>label_tensor.py\<close>, which is not among the sources. The labels are unique and their
  count equals the size of the last axis; anything else is refused.
\<close>

definition LabelTensor :: "'f list \<Rightarrow> string list \<Rightarrow> error + 'f label_tensor" where
  "LabelTensor x ls =
     (if \<not> distinct ls then Inl err_labels_unique
      else if length ls \<noteq> length x then Inl err_labels_count
      else Inr \<lparr>labels = ls, cols = x\<rparr>)"

text \<open>
  Modelled from the spec: \<^verbatim>\<open>LabelTensor.extract\<close>, column extraction by label, in the
  order of the request. A label the tensor does not have is refused.
\<close>

definition lt_extract :: "'f label_tensor \<Rightarrow> string list \<Rightarrow> error + 'f label_tensor" where
  "lt_extract t ls =
     ebind (emap (\<lambda>l. case list_index (labels t) l of
                          Inl e \<Rightarrow> Inl err_extract
                        | Inr j \<Rightarrow> item (cols t) j) ls)
       (\<lambda>cs. Inr \<lparr>labels = ls, cols = cs\<rparr>)"

text \<open>Python's \<^verbatim>\<open>"+".join(items)\<close>.\<close>

fun join_plus :: "string list \<Rightarrow> string" where
  "join_plus [] = []"
| "join_plus [s] = s"
| "join_plus (s # t # ss) = s @ ''+'' @ join_plus (t # ss)"

text \<open>
  Modelled from the spec: \<^verbatim>\<open>LabelTensor.summation\<close>, the sum of a list of tensors of
  the same shape, with labels derived from those of the summands. No property below
  depends on the derived labels.
\<close>

definition summation :: "('f::comm_monoid_add) label_tensor list \<Rightarrow> error + 'f label_tensor" where
  "summation ts =
     (case ts of
        [] \<Rightarrow> Inl err_summation
      | t # _ \<Rightarrow>
          (let n = length (cols t) in
           if \<exists>u \<in> set ts. length (cols u) \<noteq> n \<or> length (labels u) \<noteq> n
           then Inl err_summation
           else Inr \<lparr>labels = map (\<lambda>j. join_plus (map (\<lambda>u. labels u ! j) ts)) [0..<n],
                     cols = map (\<lambda>j. sum_list (map (\<lambda>u. cols u ! j) ts)) [0..<n]\<rparr>))"

text \<open>\<^verbatim>\<open>torch.cat(tensors, dim=-1)\<close>: the columns side by side; an empty list is refused.\<close>

definition torch_cat :: "'f list list \<Rightarrow> error + 'f list" where
  "torch_cat ts = (if ts = [] then Inl err_cat_empty else Inr (concat ts))"

section \<open>The differential operators of \<^verbatim>\<open>operator.py\<close>\<close>

text \<open>
  The reverse-mode primitive \<^verbatim>\<open>torch.autograd.grad(outputs, inputs, ones_like(outputs))\<close>
  is a parameter \<open>ad\<close> of every operator: \<open>ad fs x\<close> is the derivative of the sum of the
  output columns \<open>fs\<close> with respect to the input column \<open>x\<close>. The result has the shape of
  the input, one column per input column.

  Names follow the source, except where Isabelle reserves them: the arguments
  \<^verbatim>\<open>output_\<close> and \<^verbatim>\<open>input_\<close> are \<open>outp\<close> and \<open>inp\<close>, the method \<^verbatim>\<open>extract\<close> is
  \<open>lt_extract\<close>, the operator \<^verbatim>\<open>div\<close> is \<open>div_op\<close>, and the private functions lose their
  leading underscore.
\<close>

definition autograd_grad :: "('f list \<Rightarrow> 'f \<Rightarrow> 'f) \<Rightarrow> 'f label_tensor \<Rightarrow> 'f label_tensor \<Rightarrow> 'f list" where
  "autograd_grad ad outp inp = map (ad (cols outp)) (cols inp)"

text \<open>The label formats \<^verbatim>\<open>f"d{c}d{i}"\<close>, \<^verbatim>\<open>f"dd{c}"\<close> and \<^verbatim>\<open>f"adv_{c}"\<close>.\<close>

definition d_label :: "string \<Rightarrow> string \<Rightarrow> string" where
  "d_label c i = ''d'' @ c @ ''d'' @ i"

definition dd_label :: "string \<Rightarrow> string" where
  "dd_label c = ''dd'' @ c"

definition adv_label :: "string \<Rightarrow> string" where
  "adv_label c = ''adv_'' @ c"

text \<open>\<^verbatim>\<open>[f"d{c}d{i}" for c in components for i in d]\<close>.\<close>

definition grad_labels :: "string list \<Rightarrow> string list \<Rightarrow> string list" where
  "grad_labels components d = concat (map (\<lambda>c. map (\<lambda>i. d_label c i) d) components)"

definition scalar_grad ::
  "('f list \<Rightarrow> 'f \<Rightarrow> 'f) \<Rightarrow> 'f label_tensor \<Rightarrow> 'f label_tensor \<Rightarrow> string list \<Rightarrow> error + 'f list" where
  "scalar_grad ad outp inp d =
     (let grad_out = autograd_grad ad outp inp in
      ebind (emap (list_index (labels inp)) d) (\<lambda>idx. emap (item grad_out) idx))"

definition fast_grad ::
  "('f list \<Rightarrow> 'f \<Rightarrow> 'f) \<Rightarrow> 'f label_tensor \<Rightarrow> 'f label_tensor \<Rightarrow> string list \<Rightarrow> string list
     \<Rightarrow> error + 'f label_tensor" where
  "fast_grad ad outp inp components d =
     (if length (cols outp) = 1 then
        ebind (scalar_grad ad outp inp d) (\<lambda>g.
        ebind (item (labels outp) 0) (\<lambda>l0.
          LabelTensor g (map (\<lambda>i. d_label l0 i) d)))
      else
        ebind (emap (\<lambda>c. ebind (lt_extract outp [c]) (\<lambda>oc. scalar_grad ad oc inp d))
                 components) (\<lambda>gs.
        ebind (torch_cat gs) (\<lambda>grads.
          LabelTensor grads (grad_labels components d))))"

definition fast_div ::
  "(('f::comm_monoid_add) list \<Rightarrow> 'f \<Rightarrow> 'f) \<Rightarrow> 'f label_tensor \<Rightarrow> 'f label_tensor \<Rightarrow> string list
     \<Rightarrow> string list \<Rightarrow> error + 'f label_tensor" where
  "fast_div ad outp inp components d =
     ebind (fast_grad ad outp inp components d) (\<lambda>grad_out.
     ebind (emap (\<lambda>(c, dj). lt_extract grad_out [d_label c dj]) (zip components d))
       (\<lambda>tensors_to_sum. summation tensors_to_sum))"

text \<open>\<^verbatim>\<open>torch.sum(t, dim=-1, keepdim=True)\<close>: the columns added into one.\<close>

definition scalar_laplacian ::
  "(('f::comm_monoid_add) list \<Rightarrow> 'f \<Rightarrow> 'f) \<Rightarrow> 'f label_tensor \<Rightarrow> 'f label_tensor \<Rightarrow> string list
     \<Rightarrow> error + 'f list" where
  "scalar_laplacian ad outp inp d =
     ebind (fast_grad ad outp inp (labels outp) d) (\<lambda>first_grad.
     ebind (fast_grad ad first_grad inp (labels first_grad) d) (\<lambda>second_grad.
       (let labels_to_extract = map (\<lambda>(c, dj). d_label c dj) (zip (labels first_grad) d) in
        ebind (lt_extract second_grad labels_to_extract) (\<lambda>e. Inr [sum_list (cols e)]))))"

definition fast_laplacian ::
  "(('f::comm_monoid_add) list \<Rightarrow> 'f \<Rightarrow> 'f) \<Rightarrow> 'f label_tensor \<Rightarrow> 'f label_tensor \<Rightarrow> string list
     \<Rightarrow> string list \<Rightarrow> string \<Rightarrow> error + 'f label_tensor" where
  "fast_laplacian ad outp inp components d method =
     (if length (cols outp) = 1 then
        ebind (scalar_laplacian ad outp inp d) (\<lambda>s.
          LabelTensor s (map dd_label components))
      else
        (let lbls = map dd_label components in
         if method = ''std'' then
           ebind (emap (\<lambda>c. ebind (lt_extract outp [c])
                               (\<lambda>oc. scalar_laplacian ad oc inp d)) components) (\<lambda>rs.
           ebind (torch_cat rs) (\<lambda>result. LabelTensor result lbls))
         else if method = ''divgrad'' then
           ebind (fast_grad ad outp inp components d) (\<lambda>grads.
           ebind (emap (\<lambda>c. fast_div ad grads inp (map (\<lambda>i. d_label c i) d) d)
                    components) (\<lambda>rs.
           ebind (torch_cat (map cols rs)) (\<lambda>result. LabelTensor result lbls)))
         else Inl err_invalid_method))"

text \<open>
  The product \<^verbatim>\<open>tmp * velocity\<close> of \<^verbatim>\<open>fast_advection\<close> broadcasts the axis of the
  directions (size \<open>m\<close> in \<open>tmp\<close>, size \<open>v\<close> in the velocity): the sizes must be equal, or
  one of them must be 1. \<open>bsel n j\<close> is the position read in an axis of size \<open>n\<close>.
\<close>

definition bsel :: "nat \<Rightarrow> nat \<Rightarrow> nat" where
  "bsel n j = (if n = 1 then 0 else j)"

definition fast_advection ::
  "(('f::comm_semiring_0) list \<Rightarrow> 'f \<Rightarrow> 'f) \<Rightarrow> 'f label_tensor \<Rightarrow> 'f label_tensor \<Rightarrow> string list
     \<Rightarrow> string list \<Rightarrow> string list \<Rightarrow> error + 'f label_tensor" where
  "fast_advection ad outp inp velocity_field components d =
     ebind (lt_extract outp velocity_field) (\<lambda>velocity.
     ebind (fast_grad ad outp inp components d) (\<lambda>grads.
       (let k = length components; m = length d; v = length (cols velocity) in
        if length (cols grads) \<noteq> k * m then Inl err_reshape
        else
          (let tmp = map (\<lambda>i. map (\<lambda>c. cols grads ! (c * m + i)) [0..<k]) [0..<m] in
           if m \<noteq> v \<and> m \<noteq> 1 \<and> v \<noteq> 1 then Inl err_broadcast
           else
             (let n = (if m = 1 then v else m);
                  adv = map (\<lambda>c. sum_list (map (\<lambda>j. (tmp ! bsel m j ! c) * (cols velocity ! bsel v j))
                                               [0..<n])) [0..<k]
              in LabelTensor adv (map adv_label components))))))"

subsection \<open>The checked entry points\<close>

text \<open>An optional argument that names labels: omitted, one string, or a list of strings.\<close>

datatype arg = ANone | AStr string | AList "string list"

text \<open>
  \<^verbatim>\<open>d = d or input_.labels\<close> followed by \<^verbatim>\<open>d = d if isinstance(d, list) else [d]\<close>:
  \<^verbatim>\<open>None\<close>, the empty string and the empty list are falsy and give way to all labels.
\<close>

definition resolve :: "arg \<Rightarrow> string list \<Rightarrow> string list" where
  "resolve a ls =
     (case a of
        ANone \<Rightarrow> ls
      | AStr s \<Rightarrow> (if s = [] then ls else [s])
      | AList l \<Rightarrow> (if l = [] then ls else l))"

definition check_values ::
  "'f py_tensor \<Rightarrow> 'f py_tensor \<Rightarrow> arg \<Rightarrow> arg \<Rightarrow> error + (string list \<times> string list)" where
  "check_values outp inp components d =
     (case inp of
        Plain _ \<Rightarrow> Inl err_input_type
      | LT ti \<Rightarrow>
          (case outp of
             Plain _ \<Rightarrow> Inl err_output_type
           | LT to \<Rightarrow>
               (let d' = resolve d (labels ti);
                    components' = resolve components (labels to) in
                if \<not> (\<forall>di \<in> set d'. di \<in> set (labels ti)) then Inl err_derivative_labels
                else if \<not> (\<forall>c \<in> set components'. c \<in> set (labels to))
                then Inl err_component_labels
                else Inr (components', d'))))"

text \<open>
  After \<open>check_values\<close> has returned, both arguments are labelled tensors; \<open>on_tensors\<close>
  hands them to the fast operator.
\<close>

definition on_tensors ::
  "'f py_tensor \<Rightarrow> 'f py_tensor \<Rightarrow> ('f label_tensor \<Rightarrow> 'f label_tensor \<Rightarrow> error + 'a) \<Rightarrow> error + 'a" where
  "on_tensors outp inp k =
     (case inp of
        Plain _ \<Rightarrow> Inl err_input_type
      | LT ti \<Rightarrow> (case outp of Plain _ \<Rightarrow> Inl err_output_type | LT to \<Rightarrow> k to ti))"

definition grad ::
  "('f list \<Rightarrow> 'f \<Rightarrow> 'f) \<Rightarrow> 'f py_tensor \<Rightarrow> 'f py_tensor \<Rightarrow> arg \<Rightarrow> arg \<Rightarrow> error + 'f label_tensor" where
  "grad ad outp inp components d =
     ebind (check_values outp inp components d) (\<lambda>(components, d).
       on_tensors outp inp (\<lambda>to ti. fast_grad ad to ti components d))"

definition div_op ::
  "(('f::comm_monoid_add) list \<Rightarrow> 'f \<Rightarrow> 'f) \<Rightarrow> 'f py_tensor \<Rightarrow> 'f py_tensor \<Rightarrow> arg \<Rightarrow> arg
     \<Rightarrow> error + 'f label_tensor" where
  "div_op ad outp inp components d =
     ebind (check_values outp inp components d) (\<lambda>(components, d).
       if length components \<noteq> length d then Inl err_div_length
       else on_tensors outp inp (\<lambda>to ti. fast_div ad to ti components d))"

text \<open>
  \<^verbatim>\<open>laplacian\<close> takes \<^verbatim>\<open>method\<close> and calls \<^verbatim>\<open>fast_laplacian\<close> without it, so that
  \<^verbatim>\<open>fast_laplacian\<close> runs with its default \<^verbatim>\<open>"std"\<close>.
\<close>

definition laplacian ::
  "(('f::comm_monoid_add) list \<Rightarrow> 'f \<Rightarrow> 'f) \<Rightarrow> 'f py_tensor \<Rightarrow> 'f py_tensor \<Rightarrow> arg \<Rightarrow> arg \<Rightarrow> string
     \<Rightarrow> error + 'f label_tensor" where
  "laplacian ad outp inp components d method =
     ebind (check_values outp inp components d) (\<lambda>(components, d).
       on_tensors outp inp (\<lambda>to ti. fast_laplacian ad to ti components d ''std''))"

text \<open>
  \<^verbatim>\<open>if isinstance(velocity_field, str): velocity_field = [velocity_field]\<close>, and the
  iteration over the result in the check that follows; \<^verbatim>\<open>None\<close> cannot be iterated.
\<close>

definition velocity_names :: "arg \<Rightarrow> error + string list" where
  "velocity_names velocity_field =
     (case velocity_field of
        ANone \<Rightarrow> Inl err_not_iterable
      | AStr s \<Rightarrow> Inr [s]
      | AList l \<Rightarrow> Inr l)"

definition advection ::
  "(('f::comm_semiring_0) list \<Rightarrow> 'f \<Rightarrow> 'f) \<Rightarrow> 'f py_tensor \<Rightarrow> 'f py_tensor \<Rightarrow> arg \<Rightarrow> arg \<Rightarrow> arg
     \<Rightarrow> error + 'f label_tensor" where
  "advection ad outp inp velocity_field components d =
     ebind (check_values outp inp components d) (\<lambda>(components, d).
       on_tensors outp inp (\<lambda>to ti.
         ebind (velocity_names velocity_field) (\<lambda>velocity_field.
           if \<not> (\<forall>vi \<in> set velocity_field. vi \<in> set (labels to))
           then Inl err_velocity_labels
           else if length velocity_field \<noteq> length d then Inl err_velocity_dim
           else fast_advection ad to ti velocity_field components d)))"

section \<open>The R3 refinement callback of \<^verbatim>\<open>r3_refinement.py\<close>\<close>

text \<open>
  A population of points is a labelled tensor seen along its first axis: the labels of
  the last axis and one row per point. Residuals are exact reals.
\<close>

record 'p points =
  pt_labels :: "string list"
  rows :: "'p list"

text \<open>
  The value a loss module returns for a two-dimensional target: a tensor of the same
  rank (one row per point), or a zero-dimensional tensor when the module reduces.
\<close>

datatype tensor = Scalar real | Matrix "real list list"

type_synonym loss_module = "real list list \<Rightarrow> real list list \<Rightarrow> tensor"

definition err_key :: error where
  "err_key = (KeyError, ''key not found'')"

definition err_dim_range :: error where
  "err_dim_range = (IndexError, ''Dimension out of range'')"

definition err_mask_shape :: error where
  "err_mask_shape = (IndexError, ''The shape of the mask does not match the indexed tensor'')"

definition err_cat_labels :: error where
  "err_cat_labels = (RuntimeError, ''LabelTensor.cat: the labels of the tensors differ'')"

definition err_check_consistency :: error where
  "err_check_consistency = (ValueError, ''residual_loss must be a subclass of the loss types'')"

definition zeros_like :: "real list list \<Rightarrow> real list list" where
  "zeros_like t = map (map (\<lambda>_. 0)) t"

definition mean :: "real list \<Rightarrow> real" where
  "mean xs = sum_list xs / real (length xs)"

text \<open>
  \<^verbatim>\<open>.mean(dim=tuple(range(1, target.ndim)))\<close> for a target of rank 2: the mean of every
  row. A zero-dimensional tensor has no dimension 1.
\<close>

definition mean_dims :: "tensor \<Rightarrow> error + real list" where
  "mean_dims t = (case t of Scalar _ \<Rightarrow> Inl err_dim_range | Matrix m \<Rightarrow> Inr (map mean m))"

text \<open>
  \<^verbatim>\<open>current_points[mask]\<close>: the rows at which the mask holds, in their order. The engine
  refuses a mask whose length is not the number of rows.
\<close>

definition bool_index :: "'p points \<Rightarrow> bool list \<Rightarrow> error + 'p points" where
  "bool_index t msk =
     (if length msk \<noteq> length (rows t) then Inl err_mask_shape
      else Inr (t\<lparr>rows := map fst (filter snd (zip (rows t) msk))\<rparr>))"

text \<open>
  Modelled from the spec: \<^verbatim>\<open>LabelTensor.cat\<close> of \<^verbatim>\<open>label_tensor.py\<close>, which is not
  among the sources: the concatenation of compatible labelled tensors along the axis of
  the points, the first tensor's rows first. Tensors with different labels are refused.
\<close>

definition cat :: "'p points \<Rightarrow> 'p points \<Rightarrow> error + 'p points" where
  "cat a b =
     (if pt_labels a \<noteq> pt_labels b then Inl err_cat_labels
      else Inr \<lparr>pt_labels = pt_labels a, rows = rows a @ rows b\<rparr>)"

text \<open>
  The solver as the callback reads it: \<^verbatim>\<open>problem.conditions[name]\<close> with its equation and
  the name of its domain, \<^verbatim>\<open>problem.domains[name]\<close> with the domain's \<^verbatim>\<open>sample(n, mode)\<close>,
  and \<^verbatim>\<open>compute_residual(points, equation)\<close>. They are outside the sources and enter as
  fields of the solver.
\<close>

record 'e condition =
  equation :: 'e
  domain :: string

type_synonym 'p domain_sampler = "int \<Rightarrow> string \<Rightarrow> error + 'p points"

record ('p, 'e) solver =
  conditions :: "string \<rightharpoonup> 'e condition"
  domains :: "string \<rightharpoonup> 'p domain_sampler"
  compute_residual :: "'p points \<Rightarrow> 'e \<Rightarrow> real list list"

text \<open>
  The state of \<^verbatim>\<open>RefinementInterface\<close>, the base class, with the population sizes recorded
  per condition; \<^verbatim>\<open>R3Refinement\<close> adds the loss module.
\<close>

record refinement_interface =
  sample_every :: int
  condition_to_update :: "string list option"
  initial_population_size :: "string \<rightharpoonup> int"

record R3Refinement = refinement_interface +
  loss_fn :: loss_module

text \<open>
  What a caller may pass as \<^verbatim>\<open>residual_loss\<close>: a class, with whether it is a subclass of
  \<^verbatim>\<open>LossInterface\<close> or of torch's \<^verbatim>\<open>_Loss\<close> and with what calling it with
  \<^verbatim>\<open>reduction=r\<close> gives; or an object that is not a class (a loss instance, say).
\<close>

datatype residual_loss =
    LossClass bool "string \<Rightarrow> error + loss_module"
  | NotAClass

text \<open>
  Modelled from the spec: \<^verbatim>\<open>check_consistency(residual_loss, (LossInterface, _Loss),
  subclass=True)\<close> of \<^verbatim>\<open>utils.py\<close>, which is not among the sources. A residual-loss
  type that is not a recognised elementwise-loss abstraction is refused.
\<close>

definition check_consistency :: "residual_loss \<Rightarrow> error + unit" where
  "check_consistency residual_loss =
     (case residual_loss of
        LossClass is_subclass _ \<Rightarrow> (if is_subclass then Inr () else Inl err_check_consistency)
      | NotAClass \<Rightarrow> Inl err_check_consistency)"

text \<open>Calling \<^verbatim>\<open>residual_loss(reduction=r)\<close>; an object that is not callable raises.\<close>

definition call_loss :: "residual_loss \<Rightarrow> string \<Rightarrow> error + loss_module" where
  "call_loss residual_loss r =
     (case residual_loss of
        LossClass _ ctor \<Rightarrow> ctor r
      | NotAClass \<Rightarrow> Inl (TypeError, ''object is not callable''))"

text \<open>
  \<^verbatim>\<open>R3Refinement.__init__\<close>. The constructor of the base class is outside the sources:
  its outcome \<open>super_init\<close> is a parameter.
\<close>

definition R3Refinement_init ::
  "error + refinement_interface \<Rightarrow> residual_loss \<Rightarrow> error + R3Refinement" where
  "R3Refinement_init super_init residual_loss =
     ebind super_init (\<lambda>base.
     ebind (check_consistency residual_loss) (\<lambda>_.
     ebind (call_loss residual_loss ''none'') (\<lambda>l.
       Inr (refinement_interface.extend base \<lparr>loss_fn = l\<rparr>))))"

text \<open>\<^verbatim>\<open>R3Refinement.sample\<close>.\<close>

definition sample ::
  "R3Refinement \<Rightarrow> 'p points \<Rightarrow> string \<Rightarrow> ('p, 'e) solver \<Rightarrow> error + 'p points" where
  "sample self current_points condition_name solver =
     (case conditions solver condition_name of
        None \<Rightarrow> Inl err_key
      | Some condition \<Rightarrow>
          (let target = compute_residual solver current_points (equation condition) in
           ebind (mean_dims (loss_fn self target (zeros_like target))) (\<lambda>residuals.
             (let lbls = pt_labels current_points;
                  domain_name = domain condition in
              case domains solver domain_name of
                None \<Rightarrow> Inl err_key
              | Some the_domain \<Rightarrow>
                  (case initial_population_size self condition_name of
                     None \<Rightarrow> Inl err_key
                   | Some num_old_points \<Rightarrow>
                       (let msk = map (\<lambda>r. r > mean residuals) residuals in
                        if \<exists>b \<in> set msk. b then
                          ebind (bool_index current_points msk) (\<lambda>pts.
                            (let pts = pts\<lparr>pt_labels := lbls\<rparr>;
                                 retain_pts = int (length (rows pts)) in
                             ebind (the_domain (num_old_points - retain_pts) ''random'') (\<lambda>samples.
                               cat pts samples)))
                        else the_domain num_old_points ''random''))))))"

text \<open>
  torch's \<^verbatim>\<open>L1Loss\<close>, the default \<^verbatim>\<open>residual_loss\<close>: the absolute difference of every
  element, kept as it is with \<^verbatim>\<open>reduction="none"\<close> and reduced to its mean or its sum
  otherwise.
\<close>

definition L1Loss :: "string \<Rightarrow> error + loss_module" where
  "L1Loss r =
     Inr (\<lambda>x y.
       (let e = map (\<lambda>(xr, yr). map (\<lambda>(a, b). \<bar>a - b\<bar>) (zip xr yr)) (zip x y) in
        if r = ''none'' then Matrix e
        else if r = ''mean'' then Scalar (mean (concat e))
        else Scalar (sum_list (concat e))))"

section \<open>Notions used to state the properties\<close>

text \<open>The invariant of a labelled tensor: unique labels, one per column.\<close>

definition wf_tensor :: "'f label_tensor \<Rightarrow> bool" where
  "wf_tensor t = (distinct (labels t) \<and> length (labels t) = length (cols t))"

text \<open>The column that carries a label (the first one, should the label be repeated).\<close>

definition first_index :: "'a list \<Rightarrow> 'a \<Rightarrow> nat" where
  "first_index ls x = (case list_index ls x of Inr j \<Rightarrow> j | Inl _ \<Rightarrow> length ls)"

definition column :: "'f label_tensor \<Rightarrow> string \<Rightarrow> 'f" where
  "column t l = cols t ! first_index (labels t) l"

text \<open>
  The gradient as a table: for every requested component, in the order of the request,
  its derivative with respect to every requested variable, in the order of the request.
\<close>

definition grad_of ::
  "('f list \<Rightarrow> 'f \<Rightarrow> 'f) \<Rightarrow> 'f label_tensor \<Rightarrow> 'f label_tensor \<Rightarrow> string list \<Rightarrow> string list
     \<Rightarrow> 'f label_tensor" where
  "grad_of ad outp inp components d =
     \<lparr>labels = grad_labels components d,
      cols = concat (map (\<lambda>c. map (\<lambda>i. ad [column outp c] (column inp i)) d) components)\<rparr>"

text \<open>
  The trace of the Hessian of a component, restricted to the variables \<open>d\<close>: the sum of the
  second derivatives with respect to each variable taken twice.
\<close>

definition hessian_trace ::
  "(('f::comm_monoid_add) list \<Rightarrow> 'f \<Rightarrow> 'f) \<Rightarrow> 'f label_tensor \<Rightarrow> 'f label_tensor \<Rightarrow> string list
     \<Rightarrow> string \<Rightarrow> 'f" where
  "hessian_trace ad outp inp d c =
     sum_list (map (\<lambda>i. ad [ad [column outp c] (column inp i)] (column inp i)) d)"

text \<open>The failures that come from below the operators.\<close>

definition engine_errors :: "error list" where
  "engine_errors =
     [err_not_in_list, err_index_range, err_cat_empty, err_reshape, err_broadcast,
      err_labels_unique, err_labels_count, err_extract, err_summation]"

text \<open>
  The points that a refinement cycle retains, given the residual of every point: those
  whose residual is strictly greater than the mean residual, in their order.
\<close>

definition retained :: "'p list \<Rightarrow> real list \<Rightarrow> 'p list" where
  "retained ps rs = map fst (filter (\<lambda>(p, r). r > mean rs) (zip ps rs))"

subsection \<open>Concrete engines and inputs\<close>

text \<open>
  A symbolic engine: a column is a formal sum of terms, and the derivative of the term
  \<open>t\<close> with respect to the input \<open>s\<close> is the term \<open>t_s\<close>.
\<close>

definition sym_ad :: "string multiset list \<Rightarrow> string multiset \<Rightarrow> string multiset" where
  "sym_ad fs x =
     sum_mset (image_mset (\<lambda>s. image_mset (\<lambda>t. t @ ''_'' @ s) (sum_list fs)) x)"

text \<open>An engine over the integers, for the operators that multiply columns.\<close>

definition int_ad :: "int list \<Rightarrow> int \<Rightarrow> int" where
  "int_ad fs x = sum_list fs * 10 + x"

definition out_u :: "string multiset label_tensor" where
  "out_u = \<lparr>labels = [''u''], cols = [{#''u''#}]\<rparr>"

definition out_uv :: "string multiset label_tensor" where
  "out_uv = \<lparr>labels = [''u'', ''v''], cols = [{#''u''#}, {#''v''#}]\<rparr>"

definition in_xy :: "string multiset label_tensor" where
  "in_xy = \<lparr>labels = [''x'', ''y''], cols = [{#''x''#}, {#''y''#}]\<rparr>"

definition iout_uv :: "int label_tensor" where
  "iout_uv = \<lparr>labels = [''u'', ''v''], cols = [0, 5]\<rparr>"

definition iin_xy :: "int label_tensor" where
  "iin_xy = \<lparr>labels = [''x'', ''y''], cols = [1, 2]\<rparr>"

text \<open>
  A loss class that is a subclass of torch's \<^verbatim>\<open>_Loss\<close> and whose modules return the mean
  absolute difference whatever \<^verbatim>\<open>reduction\<close> they are built with.
\<close>

definition mean_abs :: loss_module where
  "mean_abs x y =
     Scalar (mean (concat (map (\<lambda>(xr, yr). map (\<lambda>(a, b). \<bar>a - b\<bar>) (zip xr yr)) (zip x y))))"

definition MeanOnlyLoss :: "string \<Rightarrow> error + loss_module" where
  "MeanOnlyLoss r = Inr mean_abs"

text \<open>A state of the base class, as its constructor leaves it.\<close>

definition base5 :: refinement_interface where
  "base5 = \<lparr>sample_every = 5, condition_to_update = None, initial_population_size = Map.empty\<rparr>"

text \<open>
  A problem with one condition on the unit interval: four points, the residual of a point
  being the point itself, and a domain that always samples the same points.
\<close>

definition unit_samples :: "real domain_sampler" where
  "unit_samples n mode =
     (if n < 0 then Inl (ValueError, ''negative number of points'')
      else Inr \<lparr>pt_labels = [''x''], rows = replicate (nat n) (1 / 2)\<rparr>)"

definition unit_solver :: "(real, unit) solver" where
  "unit_solver =
     \<lparr>conditions = [''D'' \<mapsto> \<lparr>equation = (), domain = ''interval''\<rparr>],
      domains = [''interval'' \<mapsto> unit_samples],
      compute_residual = (\<lambda>pts eq. map (\<lambda>p. [p]) (rows pts))\<rparr>"

definition unit_points :: "real points" where
  "unit_points = \<lparr>pt_labels = [''x''], rows = [0, 1, 4, 3]\<rparr>"

definition l1_none :: loss_module where
  "l1_none x y = Matrix (map (\<lambda>(xr, yr). map (\<lambda>(a, b). \<bar>a - b\<bar>) (zip xr yr)) (zip x y))"

definition r3_unit :: R3Refinement where
  "r3_unit = \<lparr>sample_every = 5, condition_to_update = None,
              initial_population_size = [''D'' \<mapsto> 4], loss_fn = l1_none\<rparr>"

text \<open>
  An output with the components \<open>u\<close> and \<open>ud\<close> over the inputs \<open>x\<close> and \<open>dx\<close>: the derived
  labels of \<open>u\<close> by \<open>dx\<close> and of \<open>ud\<close> by \<open>x\<close> are both \<^verbatim>\<open>duddx\<close>.
\<close>

definition out_u_ud :: "string multiset label_tensor" where
  "out_u_ud = \<lparr>labels = [''u'', ''ud''], cols = [{#''u''#}, {#''ud''#}]\<rparr>"

definition in_x_dx :: "string multiset label_tensor" where
  "in_x_dx = \<lparr>labels = [''x'', ''dx''], cols = [{#''x''#}, {#''dx''#}]\<rparr>"

text \<open>A population of six points for the condition whose recorded size is four.\<close>

definition six_points :: "real points" where
  "six_points = \<lparr>pt_labels = [''x''], rows = [0, 1, 4, 3, 0, 10]\<rparr>"

section \<open>Basic facts\<close>

lemma ebind_Inl [simp]: "ebind (Inl e) f = Inl e"
  by (simp add: ebind_def)

lemma ebind_Inr [simp]: "ebind (Inr v) f = f v"
  by (simp add: ebind_def)

lemma ebind_eq_Inl: "ebind m f = Inl e \<longleftrightarrow> m = Inl e \<or> (\<exists>v. m = Inr v \<and> f v = Inl e)"
  by (cases m) auto

lemma ebind_eq_Inr: "ebind m f = Inr r \<longleftrightarrow> (\<exists>v. m = Inr v \<and> f v = Inr r)"
  by (cases m) auto

lemmas eval_defs =
  laplacian_def grad_def div_op_def advection_def check_values_def resolve_def on_tensors_def
  fast_laplacian_def fast_div_def fast_advection_def summation_def scalar_laplacian_def
  fast_grad_def scalar_grad_def autograd_grad_def item_def LabelTensor_def lt_extract_def
  torch_cat_def grad_labels_def d_label_def dd_label_def adv_label_def bsel_def
  velocity_names_def

lemma emap_Inl: "emap f xs = Inl e \<Longrightarrow> \<exists>x \<in> set xs. f x = Inl e"
  by (induction xs) (auto simp: ebind_eq_Inl)

subsection \<open>Which exceptions the fast operators can raise\<close>

lemma item_Inl: "item xs j = Inl e \<Longrightarrow> e = err_index_range"
  by (auto simp: item_def split: if_splits)

lemma list_index_Inl: "list_index xs x = Inl e \<Longrightarrow> e = err_not_in_list"
  by (induction xs) (auto simp: ebind_eq_Inl split: if_splits)

lemma LabelTensor_Inl:
  "LabelTensor x ls = Inl e \<Longrightarrow> e = err_labels_unique \<or> e = err_labels_count"
  by (auto simp: LabelTensor_def split: if_splits)

lemma lt_extract_Inl: "lt_extract t ls = Inl e \<Longrightarrow> e = err_extract \<or> e = err_index_range"
  by (auto simp: lt_extract_def ebind_eq_Inl dest!: emap_Inl item_Inl split: sum.splits)

lemma scalar_grad_Inl:
  "scalar_grad ad outp inp d = Inl e \<Longrightarrow> e = err_not_in_list \<or> e = err_index_range"
  by (auto simp: scalar_grad_def Let_def ebind_eq_Inl dest!: emap_Inl item_Inl list_index_Inl)

lemma torch_cat_Inl: "torch_cat ts = Inl e \<Longrightarrow> e = err_cat_empty"
  by (auto simp: torch_cat_def split: if_splits)

lemma summation_Inl: "summation ts = Inl e \<Longrightarrow> e = err_summation"
  by (auto simp: summation_def Let_def split: list.splits if_splits)

lemma fast_grad_Inl: "fast_grad ad outp inp c d = Inl e \<Longrightarrow> e \<in> set engine_errors"
  unfolding fast_grad_def engine_errors_def
  by (auto simp: ebind_eq_Inl split: if_splits
      dest!: emap_Inl scalar_grad_Inl item_Inl LabelTensor_Inl lt_extract_Inl torch_cat_Inl)

lemma fast_div_Inl: "fast_div ad outp inp c d = Inl e \<Longrightarrow> e \<in> set engine_errors"
  unfolding fast_div_def
  by (auto simp: ebind_eq_Inl engine_errors_def split: if_splits
      dest!: emap_Inl fast_grad_Inl lt_extract_Inl summation_Inl)

lemma scalar_laplacian_Inl:
  "scalar_laplacian ad outp inp d = Inl e \<Longrightarrow> e \<in> set engine_errors"
  unfolding scalar_laplacian_def
  by (auto simp: ebind_eq_Inl Let_def engine_errors_def split: if_splits
      dest!: fast_grad_Inl lt_extract_Inl)

lemma fast_advection_Inl:
  "fast_advection ad outp inp vf c d = Inl e \<Longrightarrow> e \<in> set engine_errors"
  unfolding fast_advection_def
  by (auto simp: ebind_eq_Inl Let_def engine_errors_def split: if_splits
      dest!: fast_grad_Inl lt_extract_Inl LabelTensor_Inl)

lemma fast_laplacian_Inl:
  "fast_laplacian ad outp inp c d m = Inl e \<Longrightarrow>
     e \<in> set engine_errors \<or>
     (e = err_invalid_method \<and> length (cols outp) \<noteq> 1 \<and> m \<noteq> ''std'' \<and> m \<noteq> ''divgrad'')"
  unfolding fast_laplacian_def
  by (auto simp: ebind_eq_Inl Let_def engine_errors_def split: if_splits
      dest!: emap_Inl scalar_laplacian_Inl fast_grad_Inl fast_div_Inl lt_extract_Inl
        LabelTensor_Inl torch_cat_Inl)

lemma engine_not_validation: "e \<in> set engine_errors \<Longrightarrow> e \<notin> set validation_errors"
  by (auto simp: engine_errors_def validation_errors_def
      err_input_type_def err_output_type_def err_derivative_labels_def err_component_labels_def
      err_div_length_def err_invalid_method_def err_velocity_labels_def err_velocity_dim_def
      err_not_in_list_def err_index_range_def err_cat_empty_def err_reshape_def err_broadcast_def
      err_labels_unique_def err_labels_count_def err_extract_def err_summation_def)

subsection \<open>The checks of the checked operators\<close>



section \<open>The method of the checked laplacian\<close>

text \<open>
  Claim C1. A call of the checked \<^verbatim>\<open>laplacian\<close> with a method other than \<^verbatim>\<open>"std"\<close> or
  \<^verbatim>\<open>"divgrad"\<close> is documented to raise \<^verbatim>\<open>ValueError\<close>. The code does not: \<^verbatim>\<open>laplacian\<close>
  never hands \<^verbatim>\<open>method\<close> to \<^verbatim>\<open>fast_laplacian\<close>. With the method \<^verbatim>\<open>"explode"\<close>, a scalar
  output \<open>u\<close> and a vector output \<open>(u, v)\<close> over the inputs \<open>(x, y)\<close> both return the
  standard laplacian, here computed by the symbolic engine.
\<close>

theorem laplacian_explode_returns:
  "laplacian sym_ad (LT out_u) (LT in_xy) ANone ANone ''explode''
     = Inr \<lparr>labels = [''ddu''], cols = [{#''u_x_x'', ''u_y_y''#}]\<rparr>
   \<and> laplacian sym_ad (LT out_uv) (LT in_xy) ANone ANone ''explode''
     = Inr \<lparr>labels = [''ddu'', ''ddv''],
            cols = [{#''u_x_x'', ''u_y_y''#}, {#''v_x_x'', ''v_y_y''#}]\<rparr>"
  by (simp add: eval_defs sym_ad_def out_u_def out_uv_def in_xy_def)

section \<open>Empty requests\<close>



section \<open>The exceptions of the fast operators\<close>

text \<open>
  Claim C7, as stated: no fast operator ever raises one of the module's own validation
  errors. \<^verbatim>\<open>fast_laplacian\<close> does: on a vector output, a method other than \<^verbatim>\<open>"std"\<close> and
  \<^verbatim>\<open>"divgrad"\<close> reaches the \<^verbatim>\<open>raise ValueError\<close> of its last branch.
\<close>

theorem fast_laplacian_raises_invalid_method:
  "fast_laplacian sym_ad out_uv in_xy [''u'', ''v''] [''x'', ''y''] ''explode''
     = Inl err_invalid_method
   \<and> err_invalid_method \<in> set validation_errors"
  by (simp add: fast_laplacian_def out_uv_def validation_errors_def)

text \<open>
  Claim C7, amended. \<^verbatim>\<open>fast_grad\<close>, \<^verbatim>\<open>fast_div\<close> and \<^verbatim>\<open>fast_advection\<close> never raise one of
  the module's validation errors: whatever they raise comes from below. The only
  validation error of \<^verbatim>\<open>fast_laplacian\<close> is the invalid-method \<^verbatim>\<open>ValueError\<close>, raised
  whenever the output does not have exactly one column and the method is neither
  \<^verbatim>\<open>"std"\<close> nor \<^verbatim>\<open>"divgrad"\<close>, and in no other case.
\<close>

theorem fast_operators_errors:
  fixes ad :: "('f::comm_semiring_0) list \<Rightarrow> 'f \<Rightarrow> 'f"
  shows
  "(fast_grad ad outp inp c d = Inl e \<longrightarrow> e \<notin> set validation_errors)
   \<and> (fast_div ad outp inp c d = Inl e \<longrightarrow> e \<notin> set validation_errors)
   \<and> (fast_advection ad outp inp vf c d = Inl e \<longrightarrow> e \<notin> set validation_errors)
   \<and> (fast_laplacian ad outp inp c d m = Inl e \<and> e \<in> set validation_errors \<longrightarrow>
        e = err_invalid_method \<and> length (cols outp) \<noteq> 1 \<and> m \<noteq> ''std'' \<and> m \<noteq> ''divgrad'')
   \<and> (length (cols outp) \<noteq> 1 \<and> m \<noteq> ''std'' \<and> m \<noteq> ''divgrad'' \<longrightarrow>
        fast_laplacian ad outp inp c d m = Inl err_invalid_method)"
proof -
  have g: "fast_grad ad outp inp c d = Inl e \<longrightarrow> e \<notin> set validation_errors"
    using fast_grad_Inl engine_not_validation by blast
  have dv: "fast_div ad outp inp c d = Inl e \<longrightarrow> e \<notin> set validation_errors"
    using fast_div_Inl engine_not_validation by blast
  have a: "fast_advection ad outp inp vf c d = Inl e \<longrightarrow> e \<notin> set validation_errors"
    using fast_advection_Inl engine_not_validation by blast
  have l: "fast_laplacian ad outp inp c d m = Inl e \<and> e \<in> set validation_errors \<longrightarrow>
        e = err_invalid_method \<and> length (cols outp) \<noteq> 1 \<and> m \<noteq> ''std'' \<and> m \<noteq> ''divgrad''"
    using fast_laplacian_Inl [of ad outp inp c d m e] engine_not_validation [of e] by blast
  have r: "length (cols outp) \<noteq> 1 \<and> m \<noteq> ''std'' \<and> m \<noteq> ''divgrad'' \<longrightarrow>
        fast_laplacian ad outp inp c d m = Inl err_invalid_method"
    by (simp add: fast_laplacian_def)
  from g dv a l r show ?thesis by blast
qed

theorem fast_operators_errors_witness:
  "fast_grad int_ad iout_uv iin_xy [] [''x''] = Inl err_cat_empty
   \<and> err_cat_empty \<notin> set validation_errors
   \<and> fast_laplacian int_ad iout_uv iin_xy [] [''x''] ''explode'' = Inl err_invalid_method"
proof -
  note t = fast_operators_errors [where ad = int_ad and outp = iout_uv and inp = iin_xy
      and c = "[]" and d = "[''x'']" and e = err_cat_empty and vf = "[]" and m = "''explode''"]
  have 1: "fast_grad int_ad iout_uv iin_xy [] [''x''] = Inl err_cat_empty"
    by (simp add: fast_grad_def torch_cat_def iout_uv_def)
  have 2: "err_cat_empty \<notin> set validation_errors"
    using t [THEN conjunct1] 1 by blast
  have 3: "length (cols iout_uv) \<noteq> 1 \<and> ''explode'' \<noteq> ''std'' \<and> ''explode'' \<noteq> ''divgrad''"
    by (simp add: iout_uv_def)
  have 4: "fast_laplacian int_ad iout_uv iin_xy [] [''x''] ''explode'' = Inl err_invalid_method"
    using t [THEN conjunct2, THEN conjunct2, THEN conjunct2, THEN conjunct2] 3 by blast
  show ?thesis using 1 2 4 by blast
qed

section \<open>Validation in the checked operators\<close>

lemma check_values_Inl_ops:
  fixes ad :: "('f::comm_semiring_0) list \<Rightarrow> 'f \<Rightarrow> 'f"
  assumes "check_values outp inp c d = Inl e"
  shows "grad ad outp inp c d = Inl e" "div_op ad outp inp c d = Inl e"
    "laplacian ad outp inp c d m = Inl e" "advection ad outp inp vf c d = Inl e"
  using assms by (simp_all add: grad_def div_op_def laplacian_def advection_def)

lemma check_values_input_type: "check_values outp (Plain x) c d = Inl err_input_type"
  by (simp add: check_values_def)

lemma check_values_output_type: "check_values (Plain x) (LT ti) c d = Inl err_output_type"
  by (simp add: check_values_def)

lemma check_values_derivative:
  "\<not> set (resolve d (labels ti)) \<subseteq> set (labels ti) \<Longrightarrow>
     check_values (LT to) (LT ti) c d = Inl err_derivative_labels"
  by (auto simp: check_values_def Let_def)

lemma check_values_component:
  "set (resolve d (labels ti)) \<subseteq> set (labels ti) \<Longrightarrow>
   \<not> set (resolve c (labels to)) \<subseteq> set (labels to) \<Longrightarrow>
     check_values (LT to) (LT ti) c d = Inl err_component_labels"
  by (auto simp: check_values_def Let_def)

text \<open>
  Claim C8. Each of \<^verbatim>\<open>grad\<close>, \<^verbatim>\<open>div\<close>, \<^verbatim>\<open>laplacian\<close> and \<^verbatim>\<open>advection\<close> raises the
  \<^verbatim>\<open>TypeError\<close> of the input when the input is not a labelled tensor, the \<^verbatim>\<open>TypeError\<close>
  of the output when only the output is not one, and a \<^verbatim>\<open>RuntimeError\<close> when a requested
  derivative variable is not a label of the input or a requested component is not a label
  of the output. The exception is the same whatever the engine \<open>ad\<close> is: it is raised
  before any differentiation.
\<close>

theorem checked_operators_validate:
  fixes ad :: "('f::comm_semiring_0) list \<Rightarrow> 'f \<Rightarrow> 'f"
  shows
  "(let results = [grad ad outp inp c d, div_op ad outp inp c d,
                   laplacian ad outp inp c d m, advection ad outp inp vf c d] in
    (\<forall>x. inp = Plain x \<longrightarrow> (\<forall>r \<in> set results. r = Inl err_input_type))
    \<and> (\<forall>ti x. inp = LT ti \<and> outp = Plain x \<longrightarrow> (\<forall>r \<in> set results. r = Inl err_output_type))
    \<and> (\<forall>ti to. inp = LT ti \<and> outp = LT to
          \<and> \<not> set (resolve d (labels ti)) \<subseteq> set (labels ti) \<longrightarrow>
          (\<forall>r \<in> set results. r = Inl err_derivative_labels))
    \<and> (\<forall>ti to. inp = LT ti \<and> outp = LT to
          \<and> set (resolve d (labels ti)) \<subseteq> set (labels ti)
          \<and> \<not> set (resolve c (labels to)) \<subseteq> set (labels to) \<longrightarrow>
          (\<forall>r \<in> set results. r = Inl err_component_labels)))"
proof -
  have 1: "grad ad outp inp c d = Inl e \<and> div_op ad outp inp c d = Inl e
      \<and> laplacian ad outp inp c d m = Inl e \<and> advection ad outp inp vf c d = Inl e"
    if "check_values outp inp c d = Inl e" for e
    using check_values_Inl_ops [OF that] by blast
  have a: "\<forall>x. inp = Plain x \<longrightarrow> check_values outp inp c d = Inl err_input_type"
    by (simp add: check_values_input_type)
  have b: "\<forall>ti x. inp = LT ti \<and> outp = Plain x \<longrightarrow>
      check_values outp inp c d = Inl err_output_type"
    by (simp add: check_values_output_type)
  have c: "\<forall>ti to. inp = LT ti \<and> outp = LT to
      \<and> \<not> set (resolve d (labels ti)) \<subseteq> set (labels ti) \<longrightarrow>
      check_values outp inp c d = Inl err_derivative_labels"
    using check_values_derivative by blast
  have d: "\<forall>ti to. inp = LT ti \<and> outp = LT to
      \<and> set (resolve d (labels ti)) \<subseteq> set (labels ti)
      \<and> \<not> set (resolve c (labels to)) \<subseteq> set (labels to) \<longrightarrow>
      check_values outp inp c d = Inl err_component_labels"
    using check_values_component by blast
  let ?R = "[grad ad outp inp c d, div_op ad outp inp c d,
             laplacian ad outp inp c d m, advection ad outp inp vf c d]"
  have A: "\<forall>x. inp = Plain x \<longrightarrow> (\<forall>r \<in> set ?R. r = Inl err_input_type)"
    using 1 [of err_input_type] a by auto
  have B: "\<forall>ti x. inp = LT ti \<and> outp = Plain x \<longrightarrow> (\<forall>r \<in> set ?R. r = Inl err_output_type)"
    using 1 [of err_output_type] b by auto
  have C: "\<forall>ti to. inp = LT ti \<and> outp = LT to
      \<and> \<not> set (resolve d (labels ti)) \<subseteq> set (labels ti) \<longrightarrow>
      (\<forall>r \<in> set ?R. r = Inl err_derivative_labels)"
    using 1 [of err_derivative_labels] c by auto
  have D: "\<forall>ti to. inp = LT ti \<and> outp = LT to
      \<and> set (resolve d (labels ti)) \<subseteq> set (labels ti)
      \<and> \<not> set (resolve c (labels to)) \<subseteq> set (labels to) \<longrightarrow>
      (\<forall>r \<in> set ?R. r = Inl err_component_labels)"
    using 1 [of err_component_labels] d by auto
  show ?thesis
    unfolding Let_def using A B C D by blast
qed

theorem checked_operators_validate_witness:
  "grad int_ad (LT iout_uv) (Plain [1, 2]) ANone ANone = Inl err_input_type
   \<and> div_op int_ad (Plain [0, 5]) (LT iin_xy) ANone ANone = Inl err_output_type
   \<and> laplacian int_ad (LT iout_uv) (LT iin_xy) ANone (AStr ''z'') ''std''
       = Inl err_derivative_labels
   \<and> advection int_ad (LT iout_uv) (LT iin_xy) (AStr ''u'') (AList [''u'', ''w'']) (AStr ''x'')
       = Inl err_component_labels"
proof -
  have 1: "grad int_ad (LT iout_uv) (Plain [1, 2]) ANone ANone = Inl err_input_type"
    using checked_operators_validate [where ad = int_ad and outp = "LT iout_uv"
        and inp = "Plain [1, 2]" and c = ANone and d = ANone and m = "''std''" and vf = ANone]
    by (simp add: Let_def)
  have 2: "div_op int_ad (Plain [0, 5]) (LT iin_xy) ANone ANone = Inl err_output_type"
    using checked_operators_validate [where ad = int_ad and outp = "Plain [0, 5]"
        and inp = "LT iin_xy" and c = ANone and d = ANone and m = "''std''" and vf = ANone]
    by (simp add: Let_def)
  have h3: "\<not> set (resolve (AStr ''z'') (labels iin_xy)) \<subseteq> set (labels iin_xy)"
    by (simp add: resolve_def iin_xy_def)
  have 3: "laplacian int_ad (LT iout_uv) (LT iin_xy) ANone (AStr ''z'') ''std''
       = Inl err_derivative_labels"
    using h3 checked_operators_validate [where ad = int_ad and outp = "LT iout_uv"
        and inp = "LT iin_xy" and c = ANone and d = "AStr ''z''" and m = "''std''" and vf = ANone]
    by (simp add: Let_def del: subset_eq)
  have h4: "set (resolve (AStr ''x'') (labels iin_xy)) \<subseteq> set (labels iin_xy)
      \<and> \<not> set (resolve (AList [''u'', ''w'']) (labels iout_uv)) \<subseteq> set (labels iout_uv)"
    by (simp add: resolve_def iin_xy_def iout_uv_def)
  have 4: "advection int_ad (LT iout_uv) (LT iin_xy) (AStr ''u'') (AList [''u'', ''w'']) (AStr ''x'')
       = Inl err_component_labels"
    using h4 checked_operators_validate [where ad = int_ad and outp = "LT iout_uv"
        and inp = "LT iin_xy" and c = "AList [''u'', ''w'']" and d = "AStr ''x''"
        and m = "''std''" and vf = "AStr ''u''"]
    by (simp add: Let_def del: subset_eq)
  show ?thesis using 1 2 3 4 by blast
qed

section \<open>Length checks of the divergence and of the advection\<close>

text \<open>
  Claim C9. Once the labels are valid, \<^verbatim>\<open>div\<close> raises its length error exactly when the
  numbers of components and of derivative variables differ, and \<^verbatim>\<open>advection\<close> raises its
  own exactly when the numbers of velocity components and of derivative variables
  differ; with equal lengths both are the fast operator, which never raises these errors.
\<close>

theorem length_checks:
  fixes ad :: "('f::comm_semiring_0) list \<Rightarrow> 'f \<Rightarrow> 'f"
  assumes "check_values (LT to) (LT ti) c d = Inr (comps, ds)"
  shows
  "(length comps \<noteq> length ds \<longrightarrow> div_op ad (LT to) (LT ti) c d = Inl err_div_length)
   \<and> (length comps = length ds \<longrightarrow>
        div_op ad (LT to) (LT ti) c d = fast_div ad to ti comps ds
        \<and> div_op ad (LT to) (LT ti) c d \<noteq> Inl err_div_length)
   \<and> (\<forall>vs. velocity_names vf = Inr vs \<and> set vs \<subseteq> set (labels to) \<longrightarrow>
        (length vs \<noteq> length ds \<longrightarrow>
           advection ad (LT to) (LT ti) vf c d = Inl err_velocity_dim)
        \<and> (length vs = length ds \<longrightarrow>
             advection ad (LT to) (LT ti) vf c d = fast_advection ad to ti vs comps ds
             \<and> advection ad (LT to) (LT ti) vf c d \<noteq> Inl err_velocity_dim))"
proof -
  have dv: "fast_div ad to ti comps ds \<noteq> Inl err_div_length"
    using fast_div_Inl [of ad to ti comps ds err_div_length] engine_not_validation [of err_div_length]
    by (auto simp: validation_errors_def)
  have av: "fast_advection ad to ti vs comps ds \<noteq> Inl err_velocity_dim" for vs
    using fast_advection_Inl [of ad to ti vs comps ds err_velocity_dim]
      engine_not_validation [of err_velocity_dim]
    by (auto simp: validation_errors_def)
  have 1: "length comps \<noteq> length ds \<longrightarrow> div_op ad (LT to) (LT ti) c d = Inl err_div_length"
    using assms by (simp add: div_op_def)
  have 2: "length comps = length ds \<longrightarrow>
        div_op ad (LT to) (LT ti) c d = fast_div ad to ti comps ds"
    using assms by (simp add: div_op_def on_tensors_def)
  have 3: "advection ad (LT to) (LT ti) vf c d = Inl err_velocity_dim"
    if "velocity_names vf = Inr vs" "set vs \<subseteq> set (labels to)" "length vs \<noteq> length ds" for vs
    using assms that by (auto simp: advection_def on_tensors_def)
  have 4: "advection ad (LT to) (LT ti) vf c d = fast_advection ad to ti vs comps ds"
    if "velocity_names vf = Inr vs" "set vs \<subseteq> set (labels to)" "length vs = length ds" for vs
    using assms that by (auto simp: advection_def on_tensors_def)
  show ?thesis using dv av 1 2 3 4 by (metis (no_types, lifting))
qed

theorem length_checks_witness:
  "div_op int_ad (LT iout_uv) (LT iin_xy) (AStr ''u'') ANone = Inl err_div_length
   \<and> div_op int_ad (LT iout_uv) (LT iin_xy) ANone ANone
       = Inr \<lparr>labels = [''dudx+dvdy''], cols = [53]\<rparr>
   \<and> advection int_ad (LT iout_uv) (LT iin_xy) (AStr ''u'') ANone ANone = Inl err_velocity_dim
   \<and> advection int_ad (LT iout_uv) (LT iin_xy) (AList [''u'', ''v'']) ANone ANone
       = Inr \<lparr>labels = [''adv_u'', ''adv_v''], cols = [10, 260]\<rparr>"
proof -
  have h1: "check_values (LT iout_uv) (LT iin_xy) (AStr ''u'') ANone = Inr ([''u''], [''x'', ''y''])"
    by (simp add: check_values_def resolve_def iout_uv_def iin_xy_def)
  have h2: "check_values (LT iout_uv) (LT iin_xy) ANone ANone
      = Inr ([''u'', ''v''], [''x'', ''y''])"
    by (simp add: check_values_def resolve_def iout_uv_def iin_xy_def)
  have 1: "div_op int_ad (LT iout_uv) (LT iin_xy) (AStr ''u'') ANone = Inl err_div_length"
    using length_checks [OF h1, where ad = int_ad and vf = ANone] by simp
  have 2: "div_op int_ad (LT iout_uv) (LT iin_xy) ANone ANone
      = fast_div int_ad iout_uv iin_xy [''u'', ''v''] [''x'', ''y'']"
    using length_checks [OF h2, where ad = int_ad and vf = ANone] by simp
  have v3: "velocity_names (AStr ''u'') = Inr [''u''] \<and> set [''u''] \<subseteq> set (labels iout_uv)"
    by (simp add: velocity_names_def iout_uv_def)
  have 3: "advection int_ad (LT iout_uv) (LT iin_xy) (AStr ''u'') ANone ANone
      = Inl err_velocity_dim"
    using length_checks [OF h2, where ad = int_ad and vf = "AStr ''u''"] v3
    by (simp del: subset_eq)
  have v4: "velocity_names (AList [''u'', ''v'']) = Inr [''u'', ''v'']
      \<and> set [''u'', ''v''] \<subseteq> set (labels iout_uv)"
    by (simp add: velocity_names_def iout_uv_def)
  have 4: "advection int_ad (LT iout_uv) (LT iin_xy) (AList [''u'', ''v'']) ANone ANone
      = fast_advection int_ad iout_uv iin_xy [''u'', ''v''] [''u'', ''v''] [''x'', ''y'']"
    using length_checks [OF h2, where ad = int_ad and vf = "AList [''u'', ''v'']"] v4
    by (simp del: subset_eq)
  have e2: "fast_div int_ad iout_uv iin_xy [''u'', ''v''] [''x'', ''y'']
      = Inr \<lparr>labels = [''dudx+dvdy''], cols = [53]\<rparr>"
    by (simp add: eval_defs int_ad_def iout_uv_def iin_xy_def)
  have e4: "fast_advection int_ad iout_uv iin_xy [''u'', ''v''] [''u'', ''v''] [''x'', ''y'']
      = Inr \<lparr>labels = [''adv_u'', ''adv_v''], cols = [10, 260]\<rparr>"
    by (simp add: eval_defs int_ad_def iout_uv_def iin_xy_def Let_def upt_rec)
  show ?thesis using 1 2 3 4 e2 e4 by simp
qed

section \<open>The refinement cycle of R3\<close>

lemma bool_index_rows:
  "length rs = length ps \<Longrightarrow>
     map fst (filter snd (zip ps (map P rs))) = map fst (filter (\<lambda>(p, r). P r) (zip ps rs))"
  by (induction ps rs rule: list_induct2') auto

lemma retained_eq:
  "length rs = length ps \<Longrightarrow>
     map fst (filter snd (zip ps (map (\<lambda>r. r > mean rs) rs))) = retained ps rs"
  unfolding retained_def by (rule bool_index_rows)

lemma retained_none:
  "length rs = length ps \<Longrightarrow> \<not> (\<exists>b \<in> set (map (\<lambda>r. r > mean rs) rs). b) \<Longrightarrow> retained ps rs = []"
  unfolding retained_def
  by (auto simp: filter_empty_conv dest: set_zip_rightD)

lemma retained_some:
  "length rs = length ps \<Longrightarrow> (\<exists>b \<in> set (map (\<lambda>r. r > mean rs) rs). b) \<Longrightarrow> retained ps rs \<noteq> []"
proof -
  assume l: "length rs = length ps" and "\<exists>b \<in> set (map (\<lambda>r. r > mean rs) rs). b"
  then obtain i where i: "i < length rs" "rs ! i > mean rs"
    by (auto simp: in_set_conv_nth)
  then have "(ps ! i, rs ! i) \<in> set (zip ps rs)"
    using l by (auto simp: set_zip)
  then show ?thesis using i unfolding retained_def
    by (auto simp: filter_empty_conv)
qed

lemma retained_length: "length (retained ps rs) \<le> length ps"
  unfolding retained_def length_map
  by (rule order_trans [OF length_filter_le]) simp

lemma points_rows_update:
  "(cur :: 'p points)\<lparr>rows := xs\<rparr> = \<lparr>pt_labels = pt_labels cur, rows = xs\<rparr>"
  by (cases cur) simp

lemma sample_unfold:
  assumes "conditions solver name = Some cnd"
    and "domains solver (domain cnd) = Some dmn"
    and "initial_population_size self name = Some n"
    and "loss_fn self (compute_residual solver cur (equation cnd))
           (zeros_like (compute_residual solver cur (equation cnd))) = Matrix m"
    and "length m = length (rows cur)"
  shows "sample self cur name solver =
     (if retained (rows cur) (map mean m) \<noteq> [] then
        ebind (dmn (n - int (length (retained (rows cur) (map mean m)))) ''random'') (\<lambda>samples.
          cat \<lparr>pt_labels = pt_labels cur, rows = retained (rows cur) (map mean m)\<rparr> samples)
      else dmn n ''random'')"
proof -
  let ?rs = "map mean m"
  have l: "length ?rs = length (rows cur)" using assms(5) by simp
  show ?thesis
  proof (cases "\<exists>b \<in> set (map (\<lambda>r. r > mean ?rs) ?rs). b")
    case True
    then have "retained (rows cur) ?rs \<noteq> []" using retained_some [OF l] by blast
    moreover have "bool_index cur (map (\<lambda>r. r > mean ?rs) ?rs)
        = Inr (cur\<lparr>rows := retained (rows cur) ?rs\<rparr>)"
      using l retained_eq [OF l] by (simp add: bool_index_def)
    ultimately show ?thesis
      using assms(1-4) True
      by (simp add: sample_def mean_dims_def Let_def points_rows_update)
  next
    case False
    then have "retained (rows cur) ?rs = []" using retained_none [OF l] by blast
    then show ?thesis
      using assms(1-4) False by (simp add: sample_def mean_dims_def Let_def)
  qed
qed

text \<open>
  Claim C2. In a refinement cycle on a condition whose population size \<open>n\<close> is recorded,
  with a loss that keeps one row per point, a domain that samples as many points as it is
  asked for, and no more than \<open>n\<close> points retained, \<^verbatim>\<open>sample\<close> returns a population of
  exactly \<open>n\<close> points, whatever the size of the current population: the \<open>k\<close> retained points
  followed by \<open>n - k\<close> freshly sampled points, which are \<open>n\<close> freshly sampled points when
  no point is retained.
\<close>

theorem sample_keeps_population_size:
  assumes "conditions solver name = Some cnd"
    and "domains solver (domain cnd) = Some dmn"
    and "initial_population_size self name = Some n"
    and "loss_fn self (compute_residual solver cur (equation cnd))
           (zeros_like (compute_residual solver cur (equation cnd))) = Matrix m"
    and "length m = length (rows cur)"
    and "int (length (retained (rows cur) (map mean m))) \<le> n"
    and "\<forall>k. 0 \<le> k \<longrightarrow>
           (\<exists>s. dmn k ''random'' = Inr s \<and> int (length (rows s)) = k
                \<and> pt_labels s = pt_labels cur)"
  shows "\<exists>new fresh. sample self cur name solver = Inr new
      \<and> int (length (rows new)) = n
      \<and> dmn (n - int (length (retained (rows cur) (map mean m)))) ''random'' = Inr fresh
      \<and> int (length (rows fresh)) = n - int (length (retained (rows cur) (map mean m)))
      \<and> rows new = retained (rows cur) (map mean m) @ rows fresh"
proof -
  let ?kept = "retained (rows cur) (map mean m)"
  have "0 \<le> n - int (length ?kept)" using assms(6) by simp
  with assms(7) obtain fresh where
    fresh: "dmn (n - int (length ?kept)) ''random'' = Inr fresh"
      "int (length (rows fresh)) = n - int (length ?kept)"
      "pt_labels fresh = pt_labels cur"
    by blast
  note u = sample_unfold [OF assms(1,2,3,4,5)]
  show ?thesis
  proof (cases "?kept = []")
    case True
    then have "sample self cur name solver = Inr fresh"
      using u fresh(1) by simp
    then show ?thesis using fresh True by simp
  next
    case False
    then have "sample self cur name solver
        = Inr \<lparr>pt_labels = pt_labels cur, rows = ?kept @ rows fresh\<rparr>"
      using u fresh by (simp add: cat_def)
    then show ?thesis using fresh by simp
  qed
qed

text \<open>A current population of the recorded size never retains more than \<open>n\<close> points.\<close>

lemma retained_le_recorded:
  "int (length (rows cur)) = n \<Longrightarrow> int (length (retained (rows cur) rs)) \<le> n"
  using retained_length [of "rows cur" rs] by simp

text \<open>
  Claim C3. In a refinement cycle that retains at least one point, the new population
  has the labels of the input population, and its rows are the points whose residual is
  strictly greater than the mean residual of the population, in their original order,
  followed by the freshly sampled points.
\<close>

theorem sample_retains_above_mean:
  assumes "conditions solver name = Some cnd"
    and "domains solver (domain cnd) = Some dmn"
    and "initial_population_size self name = Some n"
    and "loss_fn self (compute_residual solver cur (equation cnd))
           (zeros_like (compute_residual solver cur (equation cnd))) = Matrix m"
    and "length m = length (rows cur)"
    and "retained (rows cur) (map mean m) \<noteq> []"
    and "dmn (n - int (length (retained (rows cur) (map mean m)))) ''random'' = Inr fresh"
    and "pt_labels fresh = pt_labels cur"
  shows "sample self cur name solver
      = Inr \<lparr>pt_labels = pt_labels cur,
             rows = map fst (filter (\<lambda>(p, r). r > mean (map mean m)) (zip (rows cur) (map mean m)))
                    @ rows fresh\<rparr>"
  using sample_unfold [OF assms(1-5)] assms(6-8)
  by (simp add: cat_def retained_def)

lemma unit_facts:
  "conditions unit_solver ''D'' = Some \<lparr>equation = (), domain = ''interval''\<rparr>"
  "domains unit_solver (domain \<lparr>equation = (), domain = ''interval''\<rparr>) = Some unit_samples"
  "initial_population_size r3_unit ''D'' = Some 4"
  "loss_fn r3_unit (compute_residual unit_solver unit_points (equation \<lparr>equation = (), domain = ''interval''\<rparr>))
     (zeros_like (compute_residual unit_solver unit_points (equation \<lparr>equation = (), domain = ''interval''\<rparr>)))
     = Matrix [[0], [1], [4], [3]]"
  "length [[0], [1], [4], [3::real]] = length (rows unit_points)"
  by (simp_all add: unit_solver_def r3_unit_def unit_points_def l1_none_def zeros_like_def)

lemma unit_retained: "retained (rows unit_points) (map mean [[0], [1], [4], [3]]) = [4, 3]"
  by (simp add: retained_def mean_def unit_points_def)

lemma six_facts:
  "loss_fn r3_unit (compute_residual unit_solver six_points (equation \<lparr>equation = (), domain = ''interval''\<rparr>))
     (zeros_like (compute_residual unit_solver six_points (equation \<lparr>equation = (), domain = ''interval''\<rparr>)))
     = Matrix [[0], [1], [4], [3], [0], [10]]"
  "length [[0], [1], [4], [3], [0], [10::real]] = length (rows six_points)"
  by (simp_all add: unit_solver_def r3_unit_def six_points_def l1_none_def zeros_like_def)

lemma six_retained:
  "retained (rows six_points) (map mean [[0], [1], [4], [3], [0], [10]]) = [4, 10]"
  by (simp add: retained_def mean_def six_points_def)

theorem sample_keeps_population_size_witness:
  "\<exists>new. sample r3_unit six_points ''D'' unit_solver = Inr new
     \<and> int (length (rows new)) = 4 \<and> length (rows six_points) = 6
     \<and> rows new = [4, 10] @ replicate 2 (1 / 2)"
proof -
  have 6: "int (length (retained (rows six_points) (map mean [[0], [1], [4], [3], [0], [10]]))) \<le> 4"
    unfolding six_retained by simp
  have 7: "\<forall>k. 0 \<le> k \<longrightarrow>
      (\<exists>s. unit_samples k ''random'' = Inr s \<and> int (length (rows s)) = k
           \<and> pt_labels s = pt_labels six_points)"
    by (simp add: unit_samples_def six_points_def)
  from sample_keeps_population_size [OF unit_facts(1,2,3) six_facts 6 7]
  obtain new fresh where new: "sample r3_unit six_points ''D'' unit_solver = Inr new"
    and n: "int (length (rows new)) = 4"
    and f: "unit_samples (4 - int (length (retained (rows six_points)
              (map mean [[0], [1], [4], [3], [0], [10]])))) ''random'' = Inr fresh"
    and r: "rows new = retained (rows six_points) (map mean [[0], [1], [4], [3], [0], [10]])
              @ rows fresh"
    by blast
  from f have "rows fresh = replicate 2 (1 / 2)"
    unfolding six_retained by (auto simp: unit_samples_def)
  with r have r': "rows new = [4, 10] @ replicate 2 (1 / 2)"
    unfolding six_retained by simp
  have "length (rows six_points) = 6" by (simp add: six_points_def)
  with new n r' show ?thesis by blast
qed

theorem sample_retains_above_mean_witness:
  "sample r3_unit unit_points ''D'' unit_solver
     = Inr \<lparr>pt_labels = [''x''], rows = [4, 3, 1 / 2, 1 / 2]\<rparr>"
proof -
  have 6: "retained (rows unit_points) (map mean [[0], [1], [4], [3]]) \<noteq> []"
    unfolding unit_retained by simp
  have 7: "unit_samples (4 - int (length (retained (rows unit_points) (map mean [[0], [1], [4], [3]]))))
      ''random'' = Inr \<lparr>pt_labels = [''x''], rows = [1 / 2, 1 / 2]\<rparr>"
    unfolding unit_retained by (simp add: unit_samples_def numeral_2_eq_2)
  have 8: "pt_labels \<lparr>pt_labels = [''x''], rows = [1 / 2, 1 / 2 :: real]\<rparr> = pt_labels unit_points"
    by (simp add: unit_points_def)
  have r: "map fst (filter (\<lambda>(p, r). r > mean (map mean [[0], [1], [4], [3]]))
                    (zip (rows unit_points) (map mean [[0], [1], [4], [3]]))) = [4, 3]"
    using unit_retained by (simp add: retained_def)
  show ?thesis
    using sample_retains_above_mean [OF unit_facts(1,2,3,4,5) 6 7 8]
    unfolding r by (simp add: unit_points_def)
qed

section \<open>The construction of the R3 callback\<close>

text \<open>
  Claim C4, as stated: construction fails for every loss that reduces. It does not: the
  constructor contains no check of the reduction. A subclass of \<^verbatim>\<open>_Loss\<close> whose modules
  always return the mean is accepted, and the callback stores a loss that reduces a
  tensor to a scalar.
\<close>

theorem reducing_loss_is_accepted:
  "R3Refinement_init (Inr base5) (LossClass True MeanOnlyLoss)
     = Inr (refinement_interface.extend base5 \<lparr>loss_fn = mean_abs\<rparr>)
   \<and> mean_abs [[1, 3], [4, 0]] (zeros_like [[1, 3], [4, 0]]) = Scalar 2"
  by (simp add: R3Refinement_init_def check_consistency_def call_loss_def MeanOnlyLoss_def
      mean_abs_def zeros_like_def mean_def)

text \<open>
  Claim C4, amended. Construction fails when \<^verbatim>\<open>residual_loss\<close> is not a subclass of the
  recognised loss types. A recognised class is not examined further: once the base class
  is initialised, construction is the call \<^verbatim>\<open>residual_loss(reduction="none")\<close>, failing
  exactly when that call fails and storing the module it returns.
\<close>

theorem R3Refinement_init_checks:
  "((residual_loss = NotAClass \<or> (\<exists>ctor. residual_loss = LossClass False ctor)) \<longrightarrow>
      (\<exists>e. R3Refinement_init super_init residual_loss = Inl e))
   \<and> (\<forall>base ctor. super_init = Inr base \<and> residual_loss = LossClass True ctor \<longrightarrow>
        R3Refinement_init super_init residual_loss =
          (case ctor ''none'' of
             Inl e \<Rightarrow> Inl e
           | Inr l \<Rightarrow> Inr (refinement_interface.extend base \<lparr>loss_fn = l\<rparr>)))"
  by (cases super_init)
    (auto simp: R3Refinement_init_def check_consistency_def call_loss_def split: sum.splits)

lemma L1Loss_none: "L1Loss ''none'' = Inr l1_none"
  by (simp add: L1Loss_def l1_none_def fun_eq_iff)

theorem R3Refinement_init_checks_witness:
  "R3Refinement_init (Inr base5) NotAClass = Inl err_check_consistency
   \<and> R3Refinement_init (Inr base5) (LossClass True L1Loss)
       = Inr (refinement_interface.extend base5 \<lparr>loss_fn = l1_none\<rparr>)
   \<and> l1_none [[1, -3]] [[0, 0]] = Matrix [[1, 3]]"
proof -
  have "\<exists>e. R3Refinement_init (Inr base5) NotAClass = Inl e"
    using R3Refinement_init_checks [where residual_loss = NotAClass and super_init = "Inr base5"]
    by blast
  then have 1: "R3Refinement_init (Inr base5) NotAClass = Inl err_check_consistency"
    by (auto simp: R3Refinement_init_def check_consistency_def)
  have "R3Refinement_init (Inr base5) (LossClass True L1Loss) =
      (case L1Loss ''none'' of
         Inl e \<Rightarrow> Inl e
       | Inr l \<Rightarrow> Inr (refinement_interface.extend base5 \<lparr>loss_fn = l\<rparr>))"
    using R3Refinement_init_checks
      [where residual_loss = "LossClass True L1Loss" and super_init = "Inr base5"]
    by blast
  then have 2: "R3Refinement_init (Inr base5) (LossClass True L1Loss)
       = Inr (refinement_interface.extend base5 \<lparr>loss_fn = l1_none\<rparr>)"
    by (simp add: L1Loss_none)
  have 3: "l1_none [[1, -3]] [[0, 0]] = Matrix [[1, 3]]"
    by (simp add: l1_none_def)
  show ?thesis using 1 2 3 by blast
qed

section \<open>The columns of the gradient\<close>

subsection \<open>What the fast gradient returns on valid labels\<close>

lemma emap_Inr: "(\<And>x. x \<in> set xs \<Longrightarrow> f x = Inr (g x)) \<Longrightarrow> emap f xs = Inr (map g xs)"
  by (induction xs) auto

lemma list_index_mem:
  "x \<in> set ls \<Longrightarrow> \<exists>j. list_index ls x = Inr j \<and> j < length ls \<and> ls ! j = x"
  by (induction ls) auto

lemma first_index_mem:
  assumes "x \<in> set ls"
  shows "list_index ls x = Inr (first_index ls x)"
    and "first_index ls x < length ls"
    and "ls ! first_index ls x = x"
  using list_index_mem [OF assms] by (auto simp: first_index_def)

lemma lt_extract_Inr:
  assumes "set ls \<subseteq> set (labels t)" and "length (labels t) \<le> length (cols t)"
  shows "lt_extract t ls = Inr \<lparr>labels = ls, cols = map (column t) ls\<rparr>"
proof -
  have "(case list_index (labels t) l of Inl e \<Rightarrow> Inl err_extract | Inr j \<Rightarrow> item (cols t) j)
      = Inr (column t l)" if "l \<in> set ls" for l
  proof -
    from that assms(1) have m: "l \<in> set (labels t)" by blast
    show ?thesis
      using first_index_mem(1,2) [OF m] assms(2)
      by (simp add: item_def column_def)
  qed
  then show ?thesis
    unfolding lt_extract_def by (simp add: emap_Inr [where g = "column t"])
qed

lemma emap_map: "emap f (map h xs) = emap (\<lambda>x. f (h x)) xs"
  by (induction xs) simp_all

lemma scalar_grad_Inr:
  assumes "set d \<subseteq> set (labels inp)" and "length (labels inp) \<le> length (cols inp)"
  shows "scalar_grad ad outp inp d = Inr (map (\<lambda>i. ad (cols outp) (column inp i)) d)"
proof -
  let ?g = "autograd_grad ad outp inp"
  have 1: "emap (list_index (labels inp)) d = Inr (map (first_index (labels inp)) d)"
  proof (rule emap_Inr)
    fix x assume "x \<in> set d"
    then have "x \<in> set (labels inp)" using assms(1) by (rule rev_subsetD)
    then show "list_index (labels inp) x = Inr (first_index (labels inp) x)"
      by (rule first_index_mem(1))
  qed
  have 2: "emap (\<lambda>i. item ?g (first_index (labels inp) i)) d
      = Inr (map (\<lambda>i. ad (cols outp) (column inp i)) d)"
  proof (rule emap_Inr)
    fix i assume "i \<in> set d"
    then have "i \<in> set (labels inp)" using assms(1) by (rule rev_subsetD)
    then have "first_index (labels inp) i < length (labels inp)"
      by (rule first_index_mem(2))
    then have "first_index (labels inp) i < length (cols inp)"
      using assms(2) by (rule less_le_trans)
    then show "item ?g (first_index (labels inp) i) = Inr (ad (cols outp) (column inp i))"
      by (simp add: item_def autograd_grad_def column_def)
  qed
  show ?thesis
    unfolding scalar_grad_def Let_def 1 ebind_Inr emap_map by (rule 2)
qed

lemma length_grad_labels: "length (grad_labels comps d) = length comps * length d"
  unfolding grad_labels_def by (induction comps) auto

lemma length_grad_cols:
  "length (concat (map (\<lambda>c. map (f c) d) comps)) = length comps * length d"
  by (induction comps) auto

lemma fast_grad_vector:
  assumes "length (cols outp) \<noteq> 1" and "comps \<noteq> []"
    and "set comps \<subseteq> set (labels outp)" and "length (labels outp) \<le> length (cols outp)"
    and "set d \<subseteq> set (labels inp)" and "length (labels inp) \<le> length (cols inp)"
    and "distinct (grad_labels comps d)"
  shows "fast_grad ad outp inp comps d = Inr (grad_of ad outp inp comps d)"
proof -
  have "ebind (lt_extract outp [c]) (\<lambda>oc. scalar_grad ad oc inp d)
      = Inr (map (\<lambda>i. ad [column outp c] (column inp i)) d)" if "c \<in> set comps" for c
  proof -
    have "lt_extract outp [c] = Inr \<lparr>labels = [c], cols = [column outp c]\<rparr>"
      using lt_extract_Inr [of "[c]" outp] that assms(3,4) by auto
    then show ?thesis
      using scalar_grad_Inr [OF assms(5,6)] by simp
  qed
  then have "emap (\<lambda>c. ebind (lt_extract outp [c]) (\<lambda>oc. scalar_grad ad oc inp d)) comps
      = Inr (map (\<lambda>c. map (\<lambda>i. ad [column outp c] (column inp i)) d) comps)"
    by (rule emap_Inr) blast
  then show ?thesis
    using assms(1,2,7)
    by (simp add: fast_grad_def torch_cat_def LabelTensor_def grad_of_def
        length_grad_labels length_grad_cols)
qed

lemma column_single: "column \<lparr>labels = [c], cols = [x]\<rparr> c = x"
  by (simp add: column_def first_index_def)

lemma fast_grad_scalar:
  assumes "labels outp = [c]" and "length (cols outp) = 1"
    and "set d \<subseteq> set (labels inp)" and "length (labels inp) \<le> length (cols inp)"
    and "distinct (grad_labels [c] d)"
  shows "fast_grad ad outp inp comps d = Inr (grad_of ad outp inp [c] d)"
proof -
  from assms(2) obtain x where x: "cols outp = [x]"
    by (cases "cols outp") auto
  have c: "column outp c = x"
    using assms(1) x by (simp add: column_def first_index_def)
  show ?thesis
    using assms(1,2,5) scalar_grad_Inr [OF assms(3,4), of ad outp] x c
    by (simp add: fast_grad_def item_def LabelTensor_def grad_of_def grad_labels_def)
qed

lemma concat_map_product:
  "concat (map (\<lambda>c. map (f c) d) comps) = map (\<lambda>(c, i). f c i) (List.product comps d)"
  by (induction comps) (simp_all add: comp_def)

lemma column_map:
  assumes "distinct (map L ps)" and "p \<in> set ps"
  shows "column \<lparr>labels = map L ps, cols = map V ps\<rparr> (L p) = V p"
proof -
  let ?j = "first_index (map L ps) (L p)"
  have m: "L p \<in> set (map L ps)" using assms(2) by simp
  have j: "?j < length ps" using first_index_mem(2) [OF m] by simp
  have "map L ps ! ?j = L p" using first_index_mem(3) [OF m] .
  then have "L (ps ! ?j) = L p" using j by simp
  moreover have "inj_on L (set ps)" using assms(1) by (simp add: distinct_map)
  ultimately have "ps ! ?j = p"
    using j assms(2) by (auto dest: inj_onD)
  then show ?thesis using j by (simp add: column_def)
qed

lemma column_grad_of:
  assumes "distinct (grad_labels comps d)" and "c \<in> set comps" and "i \<in> set d"
  shows "column (grad_of ad outp inp comps d) (d_label c i) = ad [column outp c] (column inp i)"
proof -
  let ?L = "\<lambda>(c, i). d_label c i"
  let ?V = "\<lambda>(c, i). ad [column outp c] (column inp i)"
  have l: "grad_labels comps d = map ?L (List.product comps d)"
    unfolding grad_labels_def by (rule concat_map_product)
  have v: "concat (map (\<lambda>c. map (\<lambda>i. ad [column outp c] (column inp i)) d) comps)
      = map ?V (List.product comps d)"
    by (rule concat_map_product)
  have "column \<lparr>labels = map ?L (List.product comps d), cols = map ?V (List.product comps d)\<rparr>
      (?L (c, i)) = ?V (c, i)"
    using assms by (intro column_map) (simp_all add: l)
  then show ?thesis
    unfolding grad_of_def l v by simp
qed

lemma grad_labels_Cons:
  "grad_labels (c # comps) d = map (d_label c) d @ grad_labels comps d"
  by (simp add: grad_labels_def)

lemma grad_labels_mem:
  "c \<in> set comps \<Longrightarrow> i \<in> set d \<Longrightarrow> d_label c i \<in> set (grad_labels comps d)"
  by (auto simp: grad_labels_def)

lemma distinct_grad_labels_components:
  "distinct (grad_labels comps d) \<Longrightarrow> d \<noteq> [] \<Longrightarrow> distinct comps"
proof (induction comps)
  case Nil
  then show ?case by simp
next
  case (Cons c comps)
  from Cons.prems obtain i where i: "i \<in> set d" by (cases d) auto
  have "c \<notin> set comps"
  proof
    assume "c \<in> set comps"
    then have "d_label c i \<in> set (grad_labels comps d)" using i by (rule grad_labels_mem)
    moreover have "d_label c i \<in> set (map (d_label c) d)" using i by simp
    ultimately show False using Cons.prems(1) by (auto simp: grad_labels_Cons)
  qed
  then show ?case using Cons by (simp add: grad_labels_Cons)
qed

lemma nth_concat_blocks:
  "a < length comps \<Longrightarrow> b < length d \<Longrightarrow>
     concat (map (\<lambda>c. map (f c) d) comps) ! (a * length d + b) = f (comps ! a) (d ! b)"
proof (induction comps arbitrary: a)
  case Nil
  then show ?case by simp
next
  case (Cons c comps)
  show ?case
  proof (cases a)
    case 0
    then show ?thesis using Cons.prems by (simp add: nth_append)
  next
    case (Suc a')
    then have "a' < length comps" using Cons.prems by simp
    from Cons.IH [OF this Cons.prems(2)] show ?thesis
      using Suc by (simp add: nth_append add.assoc)
  qed
qed

lemma checked_grad_eq:
  "check_values (LT to) (LT ti) c d = Inr (comps, ds) \<Longrightarrow>
     grad ad (LT to) (LT ti) c d = fast_grad ad to ti comps ds"
  by (simp add: grad_def on_tensors_def)

lemma fast_grad_vector_duplicate:
  assumes "length (cols outp) \<noteq> 1" and "comps \<noteq> []"
    and "set comps \<subseteq> set (labels outp)" and "length (labels outp) \<le> length (cols outp)"
    and "set d \<subseteq> set (labels inp)" and "length (labels inp) \<le> length (cols inp)"
    and "\<not> distinct (grad_labels comps d)"
  shows "fast_grad ad outp inp comps d = Inl err_labels_unique"
proof -
  have "ebind (lt_extract outp [c]) (\<lambda>oc. scalar_grad ad oc inp d)
      = Inr (map (\<lambda>i. ad [column outp c] (column inp i)) d)" if "c \<in> set comps" for c
  proof -
    have "lt_extract outp [c] = Inr \<lparr>labels = [c], cols = [column outp c]\<rparr>"
      using lt_extract_Inr [of "[c]" outp] that assms(3,4) by auto
    then show ?thesis
      using scalar_grad_Inr [OF assms(5,6)] by simp
  qed
  then have "emap (\<lambda>c. ebind (lt_extract outp [c]) (\<lambda>oc. scalar_grad ad oc inp d)) comps
      = Inr (map (\<lambda>c. map (\<lambda>i. ad [column outp c] (column inp i)) d) comps)"
    by (rule emap_Inr)
  then show ?thesis
    using assms(1,2,7)
    by (simp add: fast_grad_def torch_cat_def LabelTensor_def)
qed

lemma check_values_lists:
  assumes "comps \<noteq> []" and "ds \<noteq> []"
    and "set comps \<subseteq> set (labels to)" and "set ds \<subseteq> set (labels ti)"
  shows "check_values (LT to) (LT ti) (AList comps) (AList ds) = Inr (comps, ds)"
  using assms by (auto simp: check_values_def resolve_def Let_def)

lemma grad_string_request:
  "s \<noteq> [] \<Longrightarrow> grad ad outp inp (AStr s) d = grad ad outp inp (AList [s]) d"
  "s \<noteq> [] \<Longrightarrow> grad ad outp inp c (AStr s) = grad ad outp inp c (AList [s])"
  by (simp_all add: grad_def check_values_def resolve_def split: py_tensor.splits)

text \<open>
  Claim C5, as stated: every valid call of \<^verbatim>\<open>grad\<close> on a vector output returns \<open>k \<sqdot> m\<close>
  columns. A call can pass the validation and still fail: the derived labels of the
  components \<open>u\<close>, \<open>ud\<close> by the variables \<open>x\<close>, \<open>dx\<close> are not unique, and the labelled tensor
  of the result is refused.
\<close>

theorem grad_duplicate_label_raises:
  "wf_tensor out_u_ud \<and> wf_tensor in_x_dx \<and> length (cols out_u_ud) = 2
   \<and> check_values (LT out_u_ud) (LT in_x_dx) (AList [''u'', ''ud'']) (AList [''x'', ''dx''])
       = Inr ([''u'', ''ud''], [''x'', ''dx''])
   \<and> grad sym_ad (LT out_u_ud) (LT in_x_dx) (AList [''u'', ''ud'']) (AList [''x'', ''dx''])
       = Inl err_labels_unique"
  by (simp add: eval_defs wf_tensor_def out_u_ud_def in_x_dx_def)

text \<open>
  Claim C5, amended. On well-formed tensors and a vector output, a request of \<open>k\<close>
  components of the output and \<open>m\<close> variables of the input whose derived labels
  \<^verbatim>\<open>d<comp>d<var>\<close> are pairwise distinct returns exactly \<open>k \<sqdot> m\<close> columns with these labels,
  component by component and, within a component, variable by variable: the column at
  position \<open>a \<sqdot> m + b\<close> is the derivative of component \<open>a\<close> of the request with respect to
  variable \<open>b\<close> of the request. A request whose derived labels are not pairwise distinct
  raises the duplicate-label error of the labelled tensor. A string is a request of the
  one name it holds.
\<close>

theorem grad_vector_columns:
  assumes "wf_tensor to" and "wf_tensor ti"
    and "length (cols to) > 1"
    and "comps \<noteq> []" and "ds \<noteq> []"
    and "set comps \<subseteq> set (labels to)" and "set ds \<subseteq> set (labels ti)"
  shows
  "(distinct (grad_labels comps ds) \<longrightarrow>
      (\<exists>g. grad ad (LT to) (LT ti) (AList comps) (AList ds) = Inr g
         \<and> labels g = concat (map (\<lambda>c. map (\<lambda>i. ''d'' @ c @ ''d'' @ i) ds) comps)
         \<and> length (cols g) = length comps * length ds
         \<and> (\<forall>a<length comps. \<forall>b<length ds.
              labels g ! (a * length ds + b) = ''d'' @ comps ! a @ ''d'' @ ds ! b
              \<and> cols g ! (a * length ds + b) = ad [column to (comps ! a)] (column ti (ds ! b)))))
   \<and> (\<not> distinct (grad_labels comps ds) \<longrightarrow>
        grad ad (LT to) (LT ti) (AList comps) (AList ds) = Inl err_labels_unique)
   \<and> (\<forall>s t. s \<noteq> [] \<and> t \<noteq> [] \<longrightarrow>
        grad ad (LT to) (LT ti) (AStr s) (AStr t) = grad ad (LT to) (LT ti) (AList [s]) (AList [t]))"
proof -
  have wf: "length (labels to) \<le> length (cols to)" "length (labels ti) \<le> length (cols ti)"
    using assms(1,2) by (simp_all add: wf_tensor_def)
  have v: "length (cols to) \<noteq> 1" using assms(3) by simp
  have e: "grad ad (LT to) (LT ti) (AList comps) (AList ds) = fast_grad ad to ti comps ds"
    using check_values_lists [OF assms(4,5,6,7)] by (rule checked_grad_eq)
  have A: "\<exists>g. grad ad (LT to) (LT ti) (AList comps) (AList ds) = Inr g
         \<and> labels g = concat (map (\<lambda>c. map (\<lambda>i. ''d'' @ c @ ''d'' @ i) ds) comps)
         \<and> length (cols g) = length comps * length ds
         \<and> (\<forall>a<length comps. \<forall>b<length ds.
              labels g ! (a * length ds + b) = ''d'' @ comps ! a @ ''d'' @ ds ! b
              \<and> cols g ! (a * length ds + b) = ad [column to (comps ! a)] (column ti (ds ! b)))"
    if dis: "distinct (grad_labels comps ds)"
  proof -
    have "fast_grad ad to ti comps ds = Inr (grad_of ad to ti comps ds)"
      using v assms(4,6) wf(1) assms(7) wf(2) dis by (rule fast_grad_vector)
    then have g: "grad ad (LT to) (LT ti) (AList comps) (AList ds) = Inr (grad_of ad to ti comps ds)"
      by (simp only: e)
    have l: "labels (grad_of ad to ti comps ds)
        = concat (map (\<lambda>c. map (\<lambda>i. ''d'' @ c @ ''d'' @ i) ds) comps)"
      by (simp add: grad_of_def grad_labels_def d_label_def)
    have n: "length (cols (grad_of ad to ti comps ds)) = length comps * length ds"
      by (simp add: grad_of_def length_grad_cols)
    have i1: "labels (grad_of ad to ti comps ds) ! (a * length ds + b)
          = ''d'' @ comps ! a @ ''d'' @ ds ! b"
      if "a < length comps" "b < length ds" for a b
      unfolding l by (simp only: nth_concat_blocks [OF that])
    have i2: "cols (grad_of ad to ti comps ds) ! (a * length ds + b)
          = ad [column to (comps ! a)] (column ti (ds ! b))"
      if "a < length comps" "b < length ds" for a b
      using nth_concat_blocks [OF that, of "\<lambda>c i. ad [column to c] (column ti i)"]
      by (simp add: grad_of_def)
    have i: "\<forall>a<length comps. \<forall>b<length ds.
        labels (grad_of ad to ti comps ds) ! (a * length ds + b)
          = ''d'' @ comps ! a @ ''d'' @ ds ! b
        \<and> cols (grad_of ad to ti comps ds) ! (a * length ds + b)
          = ad [column to (comps ! a)] (column ti (ds ! b))"
      using i1 i2 by blast
    show ?thesis
      by (rule exI [of _ "grad_of ad to ti comps ds"]) (rule conjI g l n i)+
  qed
  have B: "grad ad (LT to) (LT ti) (AList comps) (AList ds) = Inl err_labels_unique"
    if dup: "\<not> distinct (grad_labels comps ds)"
    unfolding e using v assms(4,6) wf(1) assms(7) wf(2) dup by (rule fast_grad_vector_duplicate)
  have C: "\<forall>s t. s \<noteq> [] \<and> t \<noteq> [] \<longrightarrow>
        grad ad (LT to) (LT ti) (AStr s) (AStr t) = grad ad (LT to) (LT ti) (AList [s]) (AList [t])"
    by (simp add: grad_string_request)
  from A B C show ?thesis by blast
qed

theorem grad_vector_columns_witness:
  "\<exists>g. grad sym_ad (LT out_uv) (LT in_xy) (AList [''v'', ''u'']) (AList [''y'']) = Inr g
     \<and> grad sym_ad (LT out_uv) (LT in_xy) (AList [''v'', ''u'']) (AStr ''y'') = Inr g
     \<and> labels g = [''dvdy'', ''dudy'']
     \<and> length (cols g) = 2
     \<and> cols g ! 1 = {#''u_y''#}"
proof -
  have 1: "wf_tensor out_uv" "wf_tensor in_xy" "length (cols out_uv) > 1"
    by (simp_all add: wf_tensor_def out_uv_def in_xy_def)
  have 2: "[''v'', ''u''] \<noteq> []" "[''y''] \<noteq> []"
    "set [''v'', ''u''] \<subseteq> set (labels out_uv)" "set [''y''] \<subseteq> set (labels in_xy)"
    by (simp_all add: out_uv_def in_xy_def)
  have 3: "distinct (grad_labels [''v'', ''u''] [''y''])"
    by (simp add: grad_labels_def d_label_def)
  note t = grad_vector_columns [OF 1 2, of sym_ad]
  from t [THEN conjunct1, rule_format, OF 3]
  obtain g where g: "grad sym_ad (LT out_uv) (LT in_xy) (AList [''v'', ''u'']) (AList [''y'']) = Inr g"
    and l: "labels g = concat (map (\<lambda>c. map (\<lambda>i. ''d'' @ c @ ''d'' @ i) [''y'']) [''v'', ''u''])"
    and n: "length (cols g) = length [''v'', ''u''] * length [''y'']"
    and i: "\<forall>a<length [''v'', ''u'']. \<forall>b<length [''y''].
          labels g ! (a * length [''y''] + b) = ''d'' @ [''v'', ''u''] ! a @ ''d'' @ [''y''] ! b
          \<and> cols g ! (a * length [''y''] + b)
             = sym_ad [column out_uv ([''v'', ''u''] ! a)] (column in_xy ([''y''] ! b))"
    by (elim exE conjE)
  from i [rule_format, of 1 0] have c: "cols g ! 1 = {#''u_y''#}"
    by (simp add: column_def first_index_def out_uv_def in_xy_def sym_ad_def)
  have s: "grad sym_ad (LT out_uv) (LT in_xy) (AList [''v'', ''u'']) (AStr ''y'')
      = grad sym_ad (LT out_uv) (LT in_xy) (AList [''v'', ''u'']) (AList [''y''])"
    by (simp add: grad_string_request)
  show ?thesis using g l n c s by simp
qed

section \<open>The two methods of the laplacian\<close>

lemma fast_grad_Inr:
  assumes "length (labels outp) = length (cols outp)" and "comps \<noteq> []"
    and "set comps \<subseteq> set (labels outp)"
    and "length (cols outp) = 1 \<Longrightarrow> comps = labels outp"
    and "set d \<subseteq> set (labels inp)" and "length (labels inp) \<le> length (cols inp)"
    and "distinct (grad_labels comps d)"
  shows "fast_grad ad outp inp comps d = Inr (grad_of ad outp inp comps d)"
proof (cases "length (cols outp) = 1")
  case True
  then have "length (labels outp) = 1" using assms(1) by simp
  then obtain c where c: "labels outp = [c]"
    by (cases "labels outp") auto
  then have cs: "comps = [c]" using assms(4) [OF True] by simp
  show ?thesis
    unfolding cs
  proof (rule fast_grad_scalar)
    show "labels outp = [c]" by (rule c)
    show "length (cols outp) = 1" by (rule True)
    show "set d \<subseteq> set (labels inp)" by (rule assms(5))
    show "length (labels inp) \<le> length (cols inp)" by (rule assms(6))
    show "distinct (grad_labels [c] d)" using assms(7) unfolding cs .
  qed
next
  case False
  show ?thesis
    using False assms(2,3) order_eq_refl [OF assms(1)] assms(5,6,7)
    by (rule fast_grad_vector)
qed

lemma grad_of_simps:
  "labels (grad_of ad outp inp comps d) = grad_labels comps d"
  "length (cols (grad_of ad outp inp comps d)) = length comps * length d"
  by (simp_all add: grad_of_def length_grad_cols)

lemma grad_labels_single: "grad_labels [c] d = map (d_label c) d"
  by (simp add: grad_labels_def)

lemma zip_map_self: "zip (map f d) d = map (\<lambda>i. (f i, i)) d"
  by (induction d) simp_all

lemma column_second:
  assumes "distinct (grad_labels comps d)"
    and "distinct (grad_labels (map (d_label c) d) d)"
    and "c \<in> set comps" and "i \<in> set d"
  shows "column (grad_of ad (grad_of ad outp inp comps d) inp (map (d_label c) d) d)
           (d_label (d_label c i) i)
         = ad [ad [column outp c] (column inp i)] (column inp i)"
proof -
  have "d_label c i \<in> set (map (d_label c) d)" using assms(4) by simp
  from column_grad_of [OF assms(2) this assms(4)]
  have "column (grad_of ad (grad_of ad outp inp comps d) inp (map (d_label c) d) d)
           (d_label (d_label c i) i)
         = ad [column (grad_of ad outp inp comps d) (d_label c i)] (column inp i)" .
  also have "column (grad_of ad outp inp comps d) (d_label c i)
      = ad [column outp c] (column inp i)"
    using assms(1,3,4) by (rule column_grad_of)
  finally show ?thesis .
qed

lemma second_grad_Inr:
  assumes "c \<in> set comps"
    and "d \<noteq> []" and "set d \<subseteq> set (labels inp)" and "length (labels inp) \<le> length (cols inp)"
    and "distinct (grad_labels (map (d_label c) d) d)"
  shows "fast_grad ad (grad_of ad outp inp comps d) inp (map (d_label c) d) d
      = Inr (grad_of ad (grad_of ad outp inp comps d) inp (map (d_label c) d) d)"
proof (rule fast_grad_Inr)
  let ?G = "grad_of ad outp inp comps d"
  show "length (labels ?G) = length (cols ?G)"
    by (simp add: grad_of_simps length_grad_labels)
  show "map (d_label c) d \<noteq> []" using assms(2) by simp
  show "set (map (d_label c) d) \<subseteq> set (labels ?G)"
    using assms(1) by (auto simp: grad_of_simps grad_labels_mem)
  show "map (d_label c) d = labels ?G" if "length (cols ?G) = 1"
  proof -
    from that have "length comps = 1" by (simp add: grad_of_simps)
    then have "comps = [c]" using assms(1) by (cases comps) auto
    then show ?thesis by (simp add: grad_of_simps grad_labels_single)
  qed
  show "set d \<subseteq> set (labels inp)" by (rule assms(3))
  show "length (labels inp) \<le> length (cols inp)" by (rule assms(4))
  show "distinct (grad_labels (map (d_label c) d) d)" by (rule assms(5))
qed

lemma extract_diagonal:
  assumes "distinct (grad_labels comps d)"
    and "distinct (grad_labels (map (d_label c) d) d)"
    and "c \<in> set comps" and "set js \<subseteq> set d"
  shows "lt_extract (grad_of ad (grad_of ad outp inp comps d) inp (map (d_label c) d) d)
           (map (\<lambda>i. d_label (d_label c i) i) js)
         = Inr \<lparr>labels = map (\<lambda>i. d_label (d_label c i) i) js,
                cols = map (\<lambda>i. ad [ad [column outp c] (column inp i)] (column inp i)) js\<rparr>"
proof -
  let ?S = "grad_of ad (grad_of ad outp inp comps d) inp (map (d_label c) d) d"
  have "set (map (\<lambda>i. d_label (d_label c i) i) js) \<subseteq> set (labels ?S)"
    using assms(4) by (auto simp: grad_of_simps intro!: grad_labels_mem)
  moreover have "length (labels ?S) \<le> length (cols ?S)"
    by (simp add: grad_of_simps length_grad_labels)
  ultimately have "lt_extract ?S (map (\<lambda>i. d_label (d_label c i) i) js)
      = Inr \<lparr>labels = map (\<lambda>i. d_label (d_label c i) i) js,
             cols = map (column ?S) (map (\<lambda>i. d_label (d_label c i) i) js)\<rparr>"
    by (rule lt_extract_Inr)
  moreover have "map (column ?S) (map (\<lambda>i. d_label (d_label c i) i) js)
      = map (\<lambda>i. ad [ad [column outp c] (column inp i)] (column inp i)) js"
    unfolding map_map comp_def
  proof (rule map_cong [OF refl])
    fix i assume "i \<in> set js"
    then have "i \<in> set d" using assms(4) by blast
    with assms(1,2,3) show "column ?S (d_label (d_label c i) i)
        = ad [ad [column outp c] (column inp i)] (column inp i)"
      by (rule column_second)
  qed
  ultimately show ?thesis by simp
qed

lemma scalar_laplacian_Inr:
  assumes "labels outp = [c]" and "length (cols outp) = 1"
    and "d \<noteq> []" and "set d \<subseteq> set (labels inp)" and "length (labels inp) \<le> length (cols inp)"
    and "distinct (grad_labels (map (d_label c) d) d)"
  shows "scalar_laplacian ad outp inp d = Inr [hessian_trace ad outp inp d c]"
proof -
  let ?F = "grad_of ad outp inp [c] d"
  have d1: "distinct (grad_labels [c] d)"
    unfolding grad_labels_single
    using assms(6,3) by (rule distinct_grad_labels_components)
  have 1: "fast_grad ad outp inp (labels outp) d = Inr ?F"
    using assms(1,2,4,5) d1 by (rule fast_grad_scalar)
  have lF: "labels ?F = map (d_label c) d"
    by (simp add: grad_of_simps grad_labels_single)
  have 2: "fast_grad ad ?F inp (map (d_label c) d) d
      = Inr (grad_of ad ?F inp (map (d_label c) d) d)"
    using assms(3,4,5,6) by (intro second_grad_Inr) simp_all
  have 3: "lt_extract (grad_of ad ?F inp (map (d_label c) d) d)
           (map (\<lambda>i. d_label (d_label c i) i) d)
         = Inr \<lparr>labels = map (\<lambda>i. d_label (d_label c i) i) d,
                cols = map (\<lambda>i. ad [ad [column outp c] (column inp i)] (column inp i)) d\<rparr>"
    using d1 assms(6) by (intro extract_diagonal) simp_all
  have z: "map (\<lambda>(c, dj). d_label c dj) (zip (map (d_label c) d) d)
      = map (\<lambda>i. d_label (d_label c i) i) d"
    by (simp add: zip_map_self comp_def)
  show ?thesis
    unfolding scalar_laplacian_def 1 ebind_Inr lF 2 Let_def z 3
    by (simp add: hessian_trace_def)
qed

lemma summation_single_columns:
  fixes v :: "'a \<Rightarrow> ('f::comm_monoid_add)"
  assumes "js \<noteq> []"
  shows "summation (map (\<lambda>i. \<lparr>labels = [l i], cols = [v i]\<rparr>) js)
      = Inr \<lparr>labels = [join_plus (map l js)], cols = [sum_list (map v js)]\<rparr>"
proof -
  from assms obtain j js' where js: "js = j # js'" by (cases js) auto
  show ?thesis
    unfolding js by (simp add: summation_def comp_def)
qed

lemma fast_div_diagonal:
  fixes ad :: "('f::comm_monoid_add) list \<Rightarrow> 'f \<Rightarrow> 'f"
  assumes "c \<in> set comps"
    and "d \<noteq> []" and "set d \<subseteq> set (labels inp)" and "length (labels inp) \<le> length (cols inp)"
    and "distinct (grad_labels comps d)"
    and "distinct (grad_labels (map (d_label c) d) d)"
  shows "fast_div ad (grad_of ad outp inp comps d) inp (map (d_label c) d) d
      = Inr \<lparr>labels = [join_plus (map (\<lambda>i. d_label (d_label c i) i) d)],
             cols = [hessian_trace ad outp inp d c]\<rparr>"
proof -
  let ?G = "grad_of ad outp inp comps d"
  let ?S = "grad_of ad ?G inp (map (d_label c) d) d"
  let ?h = "\<lambda>i. ad [ad [column outp c] (column inp i)] (column inp i)"
  let ?l = "\<lambda>i. d_label (d_label c i) i"
  have 1: "fast_grad ad ?G inp (map (d_label c) d) d = Inr ?S"
    using assms(1,2,3,4,6) by (rule second_grad_Inr)
  have 2: "emap (\<lambda>(c, dj). lt_extract ?S [d_label c dj]) (zip (map (d_label c) d) d)
      = Inr (map (\<lambda>i. \<lparr>labels = [?l i], cols = [?h i]\<rparr>) d)"
    unfolding zip_map_self emap_map
  proof (rule emap_Inr)
    fix i assume "i \<in> set d"
    then have "set [i] \<subseteq> set d" by simp
    from extract_diagonal [OF assms(5,6,1) this, of ad outp inp]
    show "(case (d_label c i, i) of (c, dj) \<Rightarrow> lt_extract ?S [d_label c dj])
        = Inr \<lparr>labels = [?l i], cols = [?h i]\<rparr>"
      by simp
  qed
  have 3: "summation (map (\<lambda>i. \<lparr>labels = [?l i], cols = [?h i]\<rparr>) d)
      = Inr \<lparr>labels = [join_plus (map ?l d)], cols = [sum_list (map ?h d)]\<rparr>"
    using assms(2) by (rule summation_single_columns)
  show ?thesis
    unfolding fast_div_def 1 ebind_Inr 2 3 hessian_trace_def ..
qed

lemma std_component:
  fixes ad :: "('f::comm_monoid_add) list \<Rightarrow> 'f \<Rightarrow> 'f"
  assumes "c \<in> set (labels outp)" and "length (labels outp) \<le> length (cols outp)"
    and "d \<noteq> []" and "set d \<subseteq> set (labels inp)" and "length (labels inp) \<le> length (cols inp)"
    and "distinct (grad_labels (map (d_label c) d) d)"
  shows "ebind (lt_extract outp [c]) (\<lambda>oc. scalar_laplacian ad oc inp d)
      = Inr [hessian_trace ad outp inp d c]"
proof -
  let ?oc = "\<lparr>labels = [c], cols = [column outp c]\<rparr>"
  have 1: "lt_extract outp [c] = Inr ?oc"
    using lt_extract_Inr [of "[c]" outp] assms(1,2) by simp
  have 2: "scalar_laplacian ad ?oc inp d = Inr [hessian_trace ad ?oc inp d c]"
    using assms(3,4,5,6) by (intro scalar_laplacian_Inr) simp_all
  have 3: "hessian_trace ad ?oc inp d c = hessian_trace ad outp inp d c"
    by (simp add: hessian_trace_def column_single)
  show ?thesis unfolding 1 ebind_Inr 2 3 ..
qed

lemma distinct_dd_labels: "distinct comps \<Longrightarrow> distinct (map dd_label comps)"
  by (simp add: distinct_map inj_on_def dd_label_def)

lemma concat_singletons: "concat (map (\<lambda>c. [f c]) comps) = map f comps"
  by (induction comps) simp_all

lemma laplacian_result:
  assumes "comps \<noteq> []" and "distinct comps"
  shows "ebind (torch_cat (map (\<lambda>c. [f c]) comps)) (\<lambda>result. LabelTensor result (map dd_label comps))
      = Inr \<lparr>labels = map dd_label comps, cols = map f comps\<rparr>"
  using assms
  by (simp add: torch_cat_def LabelTensor_def concat_singletons distinct_dd_labels)

lemma emap_cases:
  assumes "\<And>x. x \<in> set xs \<Longrightarrow> f x = (if P x then Inr (g x) else Inl e)"
  shows "emap f xs = (if \<forall>x \<in> set xs. P x then Inr (map g xs) else Inl e)"
  using assms
proof (induction xs)
  case Nil
  then show ?case by simp
next
  case (Cons x xs)
  have x: "f x = (if P x then Inr (g x) else Inl e)" using Cons.prems by simp
  have "emap f xs = (if \<forall>x \<in> set xs. P x then Inr (map g xs) else Inl e)"
    using Cons.prems by (intro Cons.IH) simp
  then show ?case using x by simp
qed

lemma distinct_d_label: "distinct d \<Longrightarrow> distinct (map (d_label c) d)"
  by (simp add: distinct_map inj_on_def d_label_def)

lemma distinct_d_label_D: "distinct (map (d_label c) d) \<Longrightarrow> distinct d"
  by (simp add: distinct_map)

lemma distinct_grad_labels_variables:
  "distinct (grad_labels comps d) \<Longrightarrow> comps \<noteq> [] \<Longrightarrow> distinct d"
  by (cases comps) (auto simp: grad_labels_Cons dest: distinct_d_label_D)

lemma second_labels_single: "length d = 1 \<Longrightarrow> distinct (grad_labels (map f d) d)"
  by (cases d) (auto simp: grad_labels_def)

lemma scalar_laplacian_duplicate:
  fixes ad :: "('f::comm_monoid_add) list \<Rightarrow> 'f \<Rightarrow> 'f"
  assumes "labels outp = [c]" and "length (cols outp) = 1"
    and "d \<noteq> []" and "set d \<subseteq> set (labels inp)" and "length (labels inp) \<le> length (cols inp)"
    and "distinct d"
    and "\<not> distinct (grad_labels (map (d_label c) d) d)"
  shows "scalar_laplacian ad outp inp d = Inl err_labels_unique"
proof -
  let ?F = "grad_of ad outp inp [c] d"
  have d1: "distinct (grad_labels [c] d)"
    unfolding grad_labels_single using assms(6) by (rule distinct_d_label)
  have 1: "fast_grad ad outp inp (labels outp) d = Inr ?F"
    using assms(1,2,4,5) d1 by (rule fast_grad_scalar)
  have lF: "labels ?F = map (d_label c) d"
    by (simp add: grad_of_simps grad_labels_single)
  have m: "length d \<noteq> 1" using assms(7) second_labels_single by blast
  have 2: "fast_grad ad ?F inp (map (d_label c) d) d = Inl err_labels_unique"
  proof (rule fast_grad_vector_duplicate)
    show "length (cols ?F) \<noteq> 1" using m by (simp add: grad_of_simps)
    show "map (d_label c) d \<noteq> []" using assms(3) by simp
    show "set (map (d_label c) d) \<subseteq> set (labels ?F)" by (simp add: lF)
    show "length (labels ?F) \<le> length (cols ?F)" by (simp add: grad_of_simps length_grad_labels)
    show "set d \<subseteq> set (labels inp)" by (rule assms(4))
    show "length (labels inp) \<le> length (cols inp)" by (rule assms(5))
    show "\<not> distinct (grad_labels (map (d_label c) d) d)" by (rule assms(7))
  qed
  show ?thesis
    unfolding scalar_laplacian_def 1 ebind_Inr lF 2 by simp
qed

lemma std_component_cases:
  fixes ad :: "('f::comm_monoid_add) list \<Rightarrow> 'f \<Rightarrow> 'f"
  assumes "c \<in> set (labels outp)" and "length (labels outp) \<le> length (cols outp)"
    and "d \<noteq> []" and "set d \<subseteq> set (labels inp)" and "length (labels inp) \<le> length (cols inp)"
    and "distinct d"
  shows "ebind (lt_extract outp [c]) (\<lambda>oc. scalar_laplacian ad oc inp d)
      = (if distinct (grad_labels (map (d_label c) d) d)
         then Inr [hessian_trace ad outp inp d c] else Inl err_labels_unique)"
proof (cases "distinct (grad_labels (map (d_label c) d) d)")
  case True
  with std_component [OF assms(1,2,3,4,5) True, of ad] show ?thesis by simp
next
  case False
  let ?oc = "\<lparr>labels = [c], cols = [column outp c]\<rparr>"
  have 1: "lt_extract outp [c] = Inr ?oc"
    using lt_extract_Inr [of "[c]" outp] assms(1,2) by simp
  have 2: "scalar_laplacian ad ?oc inp d = Inl err_labels_unique"
    using assms(3,4,5,6) False by (intro scalar_laplacian_duplicate) simp_all
  show ?thesis unfolding 1 ebind_Inr 2 using False by simp
qed

lemma fast_div_duplicate:
  fixes ad :: "('f::comm_monoid_add) list \<Rightarrow> 'f \<Rightarrow> 'f"
  assumes "c \<in> set comps"
    and "d \<noteq> []" and "set d \<subseteq> set (labels inp)" and "length (labels inp) \<le> length (cols inp)"
    and "\<not> distinct (grad_labels (map (d_label c) d) d)"
  shows "fast_div ad (grad_of ad outp inp comps d) inp (map (d_label c) d) d
      = Inl err_labels_unique"
proof -
  let ?G = "grad_of ad outp inp comps d"
  have m: "length d \<noteq> 1" using assms(5) second_labels_single by blast
  have k: "length comps \<noteq> 0" using assms(1) by auto
  have "fast_grad ad ?G inp (map (d_label c) d) d = Inl err_labels_unique"
  proof (rule fast_grad_vector_duplicate)
    show "length (cols ?G) \<noteq> 1" using m k by (simp add: grad_of_simps)
    show "map (d_label c) d \<noteq> []" using assms(2) by simp
    show "set (map (d_label c) d) \<subseteq> set (labels ?G)"
      using assms(1) by (auto simp: grad_of_simps grad_labels_mem)
    show "length (labels ?G) \<le> length (cols ?G)" by (simp add: grad_of_simps length_grad_labels)
    show "set d \<subseteq> set (labels inp)" by (rule assms(3))
    show "length (labels inp) \<le> length (cols inp)" by (rule assms(4))
    show "\<not> distinct (grad_labels (map (d_label c) d) d)" by (rule assms(5))
  qed
  then show ?thesis by (simp add: fast_div_def)
qed

lemma fast_laplacian_std_vector:
  fixes ad :: "('f::comm_monoid_add) list \<Rightarrow> 'f \<Rightarrow> 'f"
  assumes "length (cols outp) \<noteq> 1"
    and "set comps \<subseteq> set (labels outp)" and "length (labels outp) \<le> length (cols outp)"
    and "d \<noteq> []" and "set d \<subseteq> set (labels inp)" and "length (labels inp) \<le> length (cols inp)"
    and "distinct d"
  shows "fast_laplacian ad outp inp comps d ''std''
      = (if \<forall>c \<in> set comps. distinct (grad_labels (map (d_label c) d) d)
         then ebind (torch_cat (map (\<lambda>c. [hessian_trace ad outp inp d c]) comps))
                (\<lambda>result. LabelTensor result (map dd_label comps))
         else Inl err_labels_unique)"
proof -
  have "emap (\<lambda>c. ebind (lt_extract outp [c]) (\<lambda>oc. scalar_laplacian ad oc inp d)) comps
      = (if \<forall>c \<in> set comps. distinct (grad_labels (map (d_label c) d) d)
         then Inr (map (\<lambda>c. [hessian_trace ad outp inp d c]) comps)
         else Inl err_labels_unique)"
  proof (rule emap_cases)
    fix c assume "c \<in> set comps"
    then have "c \<in> set (labels outp)" using assms(2) by blast
    then show "ebind (lt_extract outp [c]) (\<lambda>oc. scalar_laplacian ad oc inp d)
        = (if distinct (grad_labels (map (d_label c) d) d)
           then Inr [hessian_trace ad outp inp d c] else Inl err_labels_unique)"
      using assms(3,4,5,6,7) by (rule std_component_cases)
  qed
  then show ?thesis
    using assms(1) by (simp add: fast_laplacian_def)
qed

lemma fast_laplacian_divgrad_vector:
  fixes ad :: "('f::comm_monoid_add) list \<Rightarrow> 'f \<Rightarrow> 'f"
  assumes "length (cols outp) \<noteq> 1" and "comps \<noteq> []"
    and "set comps \<subseteq> set (labels outp)" and "length (labels outp) \<le> length (cols outp)"
    and "d \<noteq> []" and "set d \<subseteq> set (labels inp)" and "length (labels inp) \<le> length (cols inp)"
    and "distinct (grad_labels comps d)"
  shows "fast_laplacian ad outp inp comps d ''divgrad''
      = (if \<forall>c \<in> set comps. distinct (grad_labels (map (d_label c) d) d)
         then ebind (torch_cat (map (\<lambda>c. [hessian_trace ad outp inp d c]) comps))
                (\<lambda>result. LabelTensor result (map dd_label comps))
         else Inl err_labels_unique)"
proof -
  let ?G = "grad_of ad outp inp comps d"
  let ?r = "\<lambda>c. \<lparr>labels = [join_plus (map (\<lambda>i. d_label (d_label c i) i) d)],
                  cols = [hessian_trace ad outp inp d c]\<rparr>"
  have 0: "fast_grad ad outp inp comps d = Inr ?G"
    using assms(1,2,3,4,6,7,8) by (rule fast_grad_vector)
  have 1: "emap (\<lambda>c. fast_div ad ?G inp (map (\<lambda>i. d_label c i) d) d) comps
      = (if \<forall>c \<in> set comps. distinct (grad_labels (map (d_label c) d) d)
         then Inr (map ?r comps) else Inl err_labels_unique)"
  proof (rule emap_cases)
    fix c assume c: "c \<in> set comps"
    show "fast_div ad ?G inp (map (\<lambda>i. d_label c i) d) d
        = (if distinct (grad_labels (map (d_label c) d) d) then Inr (?r c)
           else Inl err_labels_unique)"
    proof (cases "distinct (grad_labels (map (d_label c) d) d)")
      case True
      with fast_div_diagonal [OF c assms(5,6,7,8) True, of ad outp] show ?thesis by simp
    next
      case False
      with fast_div_duplicate [OF c assms(5,6,7) False, of ad outp] show ?thesis by simp
    qed
  qed
  show ?thesis
    using assms(1) by (simp add: fast_laplacian_def 0 1 comp_def)
qed

lemma fast_laplacian_divgrad_duplicate:
  fixes ad :: "('f::comm_monoid_add) list \<Rightarrow> 'f \<Rightarrow> 'f"
  assumes "length (cols outp) \<noteq> 1" and "comps \<noteq> []"
    and "set comps \<subseteq> set (labels outp)" and "length (labels outp) \<le> length (cols outp)"
    and "set d \<subseteq> set (labels inp)" and "length (labels inp) \<le> length (cols inp)"
    and "\<not> distinct (grad_labels comps d)"
  shows "fast_laplacian ad outp inp comps d ''divgrad'' = Inl err_labels_unique"
proof -
  have "fast_grad ad outp inp comps d = Inl err_labels_unique"
    using assms by (rule fast_grad_vector_duplicate)
  then show ?thesis using assms(1) by (simp add: fast_laplacian_def)
qed

lemma fast_laplacian_scalar:
  fixes ad :: "('f::comm_monoid_add) list \<Rightarrow> 'f \<Rightarrow> 'f"
  assumes "length (cols outp) = 1" and "comps \<noteq> []"
    and "set comps \<subseteq> set (labels outp)" and "length (labels outp) = length (cols outp)"
    and "d \<noteq> []" and "set d \<subseteq> set (labels inp)" and "length (labels inp) \<le> length (cols inp)"
    and "distinct comps"
    and "\<forall>c \<in> set comps. distinct (grad_labels (map (d_label c) d) d)"
  shows "fast_laplacian ad outp inp comps d method
      = Inr \<lparr>labels = map dd_label comps, cols = map (hessian_trace ad outp inp d) comps\<rparr>"
proof -
  from assms(1,4) obtain c where c: "labels outp = [c]"
    by (cases "labels outp") auto
  have cs: "comps = [c]"
  proof (cases comps)
    case Nil
    then show ?thesis using assms(2) by simp
  next
    case (Cons x xs)
    then have "x = c" "set xs \<subseteq> {c}" "x \<notin> set xs"
      using assms(3,8) c by auto
    then have "xs = []" by (cases xs) auto
    then show ?thesis using Cons \<open>x = c\<close> by simp
  qed
  have "distinct (grad_labels (map (d_label c) d) d)"
    using assms(9) by (simp add: cs)
  with c assms(1,5,6,7)
  have "scalar_laplacian ad outp inp d = Inr [hessian_trace ad outp inp d c]"
    by (intro scalar_laplacian_Inr)
  then show ?thesis
    using assms(1) by (simp add: fast_laplacian_def cs LabelTensor_def)
qed

lemma fast_laplacian_scalar_method:
  "length (cols outp) = 1 \<Longrightarrow>
     fast_laplacian ad outp inp comps d method = fast_laplacian ad outp inp comps d method'"
  by (simp add: fast_laplacian_def)

text \<open>
  Claim C6, as stated: on every valid output and input, with all the input labels as
  variables, the two methods agree. On the components \<open>u\<close>, \<open>ud\<close> and the variables \<open>x\<close>,
  \<open>dx\<close> they do not: \<^verbatim>\<open>"std"\<close> labels the derivatives of one component at a time and returns
  the laplacian, \<^verbatim>\<open>"divgrad"\<close> labels the whole gradient, in which \<^verbatim>\<open>duddx\<close> occurs twice, and
  raises.
\<close>

theorem laplacian_methods_differ:
  "wf_tensor out_u_ud \<and> wf_tensor in_x_dx
   \<and> fast_laplacian sym_ad out_u_ud in_x_dx [''u'', ''ud''] (labels in_x_dx) ''std''
       = Inr \<lparr>labels = [''ddu'', ''ddud''],
              cols = [{#''u_x_x'', ''u_dx_dx''#}, {#''ud_x_x'', ''ud_dx_dx''#}]\<rparr>
   \<and> fast_laplacian sym_ad out_u_ud in_x_dx [''u'', ''ud''] (labels in_x_dx) ''divgrad''
       = Inl err_labels_unique"
  by (simp add: eval_defs wf_tensor_def sym_ad_def out_u_ud_def in_x_dx_def)

text \<open>
  Claim C6, amended. On well-formed tensors, for requested components of the output and
  requested variables of the input (all the input labels, or any of them):
  if the labels \<^verbatim>\<open>d<comp>d<var>\<close> of the whole gradient are pairwise distinct,
  \<^verbatim>\<open>fast_laplacian\<close> has the same outcome with \<^verbatim>\<open>"std"\<close> and with \<^verbatim>\<open>"divgrad"\<close>, for every
  engine \<open>ad\<close>; with distinct components, whose second-derivative labels are distinct
  within each component, the outcome of \<^verbatim>\<open>"std"\<close> is one column per component, labelled
  \<^verbatim>\<open>dd<component>\<close>, holding the sum over the variables of the second derivative taken
  twice with respect to the same variable; and if two labels of the whole gradient of a
  vector output coincide, \<^verbatim>\<open>"divgrad"\<close> raises the duplicate-label error.
\<close>

theorem laplacian_std_eq_divgrad:
  fixes ad :: "('f::comm_monoid_add) list \<Rightarrow> 'f \<Rightarrow> 'f"
  assumes "wf_tensor outp" and "wf_tensor inp"
    and "comps \<noteq> []" and "set comps \<subseteq> set (labels outp)"
    and "d \<noteq> []" and "set d \<subseteq> set (labels inp)"
  shows
  "(distinct (grad_labels comps d) \<longrightarrow>
      fast_laplacian ad outp inp comps d ''std'' = fast_laplacian ad outp inp comps d ''divgrad'')
   \<and> (distinct comps \<and> (\<forall>c \<in> set comps. distinct (grad_labels (map (d_label c) d) d)) \<longrightarrow>
        fast_laplacian ad outp inp comps d ''std''
          = Inr \<lparr>labels = map dd_label comps,
                 cols = map (\<lambda>c. sum_list (map (\<lambda>i. ad [ad [column outp c] (column inp i)]
                                                    (column inp i)) d)) comps\<rparr>)
   \<and> (length (cols outp) \<noteq> 1 \<and> \<not> distinct (grad_labels comps d) \<longrightarrow>
        fast_laplacian ad outp inp comps d ''divgrad'' = Inl err_labels_unique)"
proof -
  have wf: "length (labels outp) = length (cols outp)" "length (labels inp) \<le> length (cols inp)"
    using assms(1,2) by (simp_all add: wf_tensor_def)
  have le: "length (labels outp) \<le> length (cols outp)" using wf(1) by simp
  have A: "fast_laplacian ad outp inp comps d ''std''
      = fast_laplacian ad outp inp comps d ''divgrad''"
    if D: "distinct (grad_labels comps d)"
  proof (cases "length (cols outp) = 1")
    case True
    then show ?thesis by (rule fast_laplacian_scalar_method)
  next
    case False
    have dd: "distinct d" using D assms(3) by (rule distinct_grad_labels_variables)
    show ?thesis
      unfolding fast_laplacian_std_vector [OF False assms(4) le assms(5,6) wf(2) dd]
        fast_laplacian_divgrad_vector [OF False assms(3,4) le assms(5,6) wf(2) D] ..
  qed
  have B: "fast_laplacian ad outp inp comps d ''std''
      = Inr \<lparr>labels = map dd_label comps, cols = map (hessian_trace ad outp inp d) comps\<rparr>"
    if dc: "distinct comps"
      and P: "\<forall>c \<in> set comps. distinct (grad_labels (map (d_label c) d) d)"
  proof (cases "length (cols outp) = 1")
    case True
    then show ?thesis
      using assms(3,4) wf(1) assms(5,6) wf(2) dc P by (rule fast_laplacian_scalar)
  next
    case False
    from assms(3) obtain c where c: "c \<in> set comps" by (cases comps) auto
    with P have "distinct (grad_labels (map (d_label c) d) d)" by blast
    then have "distinct (map (d_label c) d)"
      using assms(5) by (rule distinct_grad_labels_components)
    then have dd: "distinct d" by (rule distinct_d_label_D)
    show ?thesis
      unfolding fast_laplacian_std_vector [OF False assms(4) le assms(5,6) wf(2) dd]
      using P by (simp add: laplacian_result [OF assms(3) dc])
  qed
  have C: "fast_laplacian ad outp inp comps d ''divgrad'' = Inl err_labels_unique"
    if "length (cols outp) \<noteq> 1" "\<not> distinct (grad_labels comps d)"
    using that(1) assms(3,4) le assms(6) wf(2) that(2)
    by (rule fast_laplacian_divgrad_duplicate)
  have h: "map (hessian_trace ad outp inp d) comps
      = map (\<lambda>c. sum_list (map (\<lambda>i. ad [ad [column outp c] (column inp i)] (column inp i)) d))
          comps"
    by (simp add: hessian_trace_def)
  show ?thesis
    using A B C unfolding h by blast
qed

theorem laplacian_std_eq_divgrad_witness:
  "fast_laplacian sym_ad out_uv in_xy [''u'', ''v''] (labels in_xy) ''std''
     = Inr \<lparr>labels = [''ddu'', ''ddv''],
            cols = [{#''u_x_x'', ''u_y_y''#}, {#''v_x_x'', ''v_y_y''#}]\<rparr>
   \<and> fast_laplacian sym_ad out_uv in_xy [''u'', ''v''] (labels in_xy) ''divgrad''
     = Inr \<lparr>labels = [''ddu'', ''ddv''],
            cols = [{#''u_x_x'', ''u_y_y''#}, {#''v_x_x'', ''v_y_y''#}]\<rparr>
   \<and> fast_laplacian sym_ad out_u_ud in_x_dx [''u'', ''ud''] (labels in_x_dx) ''divgrad''
     = Inl err_labels_unique"
proof -
  have 1: "wf_tensor out_uv" "wf_tensor in_xy"
    by (simp_all add: wf_tensor_def out_uv_def in_xy_def)
  have 2: "[''u'', ''v''] \<noteq> []" "set [''u'', ''v''] \<subseteq> set (labels out_uv)"
    by (simp_all add: out_uv_def)
  have 3: "labels in_xy \<noteq> []" "set (labels in_xy) \<subseteq> set (labels in_xy)"
    by (simp_all add: in_xy_def)
  note t = laplacian_std_eq_divgrad [OF 1 2 3, of sym_ad]
  have D: "distinct (grad_labels [''u'', ''v''] (labels in_xy))"
    by (simp add: grad_labels_def d_label_def in_xy_def)
  have P: "distinct [''u'', ''v'']
      \<and> (\<forall>c \<in> set [''u'', ''v'']. distinct (grad_labels (map (d_label c) (labels in_xy)) (labels in_xy)))"
    by (simp add: grad_labels_def d_label_def in_xy_def)
  from t [THEN conjunct2, THEN conjunct1, rule_format, OF P]
  have "fast_laplacian sym_ad out_uv in_xy [''u'', ''v''] (labels in_xy) ''std''
      = Inr \<lparr>labels = map dd_label [''u'', ''v''],
             cols = map (\<lambda>c. sum_list (map (\<lambda>i. sym_ad [sym_ad [column out_uv c] (column in_xy i)]
                                                 (column in_xy i)) (labels in_xy)))
                        [''u'', ''v'']\<rparr>" .
  then have s: "fast_laplacian sym_ad out_uv in_xy [''u'', ''v''] (labels in_xy) ''std''
     = Inr \<lparr>labels = [''ddu'', ''ddv''],
            cols = [{#''u_x_x'', ''u_y_y''#}, {#''v_x_x'', ''v_y_y''#}]\<rparr>"
    by (simp add: dd_label_def column_def first_index_def sym_ad_def out_uv_def in_xy_def)
  from t [THEN conjunct1, rule_format, OF D]
  have e: "fast_laplacian sym_ad out_uv in_xy [''u'', ''v''] (labels in_xy) ''std''
      = fast_laplacian sym_ad out_uv in_xy [''u'', ''v''] (labels in_xy) ''divgrad''" .
  have 4: "wf_tensor out_u_ud" "wf_tensor in_x_dx"
    by (simp_all add: wf_tensor_def out_u_ud_def in_x_dx_def)
  have 5: "[''u'', ''ud''] \<noteq> []" "set [''u'', ''ud''] \<subseteq> set (labels out_u_ud)"
    by (simp_all add: out_u_ud_def)
  have 6: "labels in_x_dx \<noteq> []" "set (labels in_x_dx) \<subseteq> set (labels in_x_dx)"
    by (simp_all add: in_x_dx_def)
  have N: "length (cols out_u_ud) \<noteq> 1
      \<and> \<not> distinct (grad_labels [''u'', ''ud''] (labels in_x_dx))"
    by (simp add: grad_labels_def d_label_def in_x_dx_def out_u_ud_def)
  from laplacian_std_eq_divgrad [OF 4 5 6, of sym_ad, THEN conjunct2, THEN conjunct2,
      rule_format, OF N]
  have r: "fast_laplacian sym_ad out_u_ud in_x_dx [''u'', ''ud''] (labels in_x_dx) ''divgrad''
     = Inl err_labels_unique" .
  show ?thesis using s e r by simp
qed

end
